theory Spec2Isabelle
  imports Complex_Main
begin

section \<open>Python values and errors\<close>

text \<open>
  The exceptions the four modules can raise, by their Python class:
  \<open>ValueError\<close> (a zero slice step, a reduction over an empty array),
  \<open>RasterioIOError\<close> (\<open>rioxarray.open_rasterio\<close> on a path that is not a raster),
  \<open>DataSourceError\<close> (\<open>geopandas.read_file\<close> on a source that cannot be read,
  \<open>to_file\<close> on a path that cannot be written),
  \<open>FileNotFoundError\<close> (raised by \<open>run_pipeline\<close> itself, and by \<open>open\<close> for
  writing in a directory that does not exist), \<open>IsADirectoryError\<close> (\<open>open\<close> on a
  directory), \<open>FileExistsError\<close> and \<open>NotADirectoryError\<close> (\<open>mkdir\<close> where a file
  is in the way) and \<open>ValidationError\<close> (pydantic, on constructing
  \<open>PipelineConfig\<close>).
\<close>

datatype error =
    ValueError
  | RasterioIOError
  | DataSourceError
  | FileNotFoundError string
  | IsADirectoryError
  | FileExistsError
  | NotADirectoryError
  | ValidationError "string list"

text \<open>
  A raster cell is a float that is either NaN or a number. Only comparisons are made on
  the numbers (\<open>np.nanmin\<close>, \<open>np.nanmax\<close>), so they are taken as reals.
\<close>

datatype height = NaN | Num real

section \<open>Slicing\<close>

text \<open>
  \<open>take_every s xs\<close> is \<open>xs[::s]\<close> for a step \<open>s \<ge> 1\<close>: the first element, then
  the element \<open>s\<close> places further on, and so on to the end of the list.
\<close>

function take_every :: "nat \<Rightarrow> 'a list \<Rightarrow> 'a list" where
  "take_every s [] = []"
| "take_every s (v # vs) = v # take_every s (drop (s - 1) vs)"
  by pat_completeness auto
termination
  by (relation "measure (\<lambda>(s, vs). length vs)") auto

text \<open>
  \<open>slice_step step xs\<close> is Python's \<open>xs[::step]\<close> for a step other than zero: a
  negative step walks the sequence from its last element backwards. \<open>py_slice\<close> adds
  the \<open>ValueError\<close> that a zero step raises.
\<close>

definition slice_step :: "int \<Rightarrow> 'a list \<Rightarrow> 'a list" where
  "slice_step step xs =
     (if 0 < step then take_every (nat step) xs else take_every (nat (- step)) (rev xs))"

definition py_slice :: "int \<Rightarrow> 'a list \<Rightarrow> error + 'a list" where
  "py_slice step xs = (if step = 0 then Inl ValueError else Inr (slice_step step xs))"

text \<open>
  A two-dimensional array is the list of its rows (\<open>tolist()\<close>); an array without rows
  is taken to have no columns either. \<open>py_slice2 step a\<close> is \<open>a[::step, ::step]\<close>:
  the same slice on the rows and inside every kept row.
\<close>

type_synonym 'a ndarray2 = "'a list list"

definition rectangular :: "'a ndarray2 \<Rightarrow> nat \<Rightarrow> bool" where
  "rectangular a ncols = list_all (\<lambda>r. length r = ncols) a"

definition shape_of :: "'a ndarray2 \<Rightarrow> nat list" where
  "shape_of a = [length a, (case a of [] \<Rightarrow> 0 | r # _ \<Rightarrow> length r)]"

definition py_slice2 :: "int \<Rightarrow> 'a ndarray2 \<Rightarrow> error + 'a ndarray2" where
  "py_slice2 step a =
     (if step = 0 then Inl ValueError
      else Inr (map (slice_step step) (slice_step step a)))"

section \<open>NaN-aware extrema\<close>

fun non_nan :: "height list \<Rightarrow> real list" where
  "non_nan [] = []"
| "non_nan (NaN # hs) = non_nan hs"
| "non_nan (Num v # hs) = v # non_nan hs"

text \<open>
  \<open>np.nanmin\<close> and \<open>np.nanmax\<close> over all cells of the array: \<open>ValueError\<close> on an array
  with no cell, NaN when every cell is NaN, the least (greatest) number otherwise.
\<close>

definition nanmin :: "height ndarray2 \<Rightarrow> error + height" where
  "nanmin a =
     (if concat a = [] then Inl ValueError
      else case non_nan (concat a) of
             [] \<Rightarrow> Inr NaN
           | v # vs \<Rightarrow> Inr (Num (fold min vs v)))"

definition nanmax :: "height ndarray2 \<Rightarrow> error + height" where
  "nanmax a =
     (if concat a = [] then Inl ValueError
      else case non_nan (concat a) of
             [] \<Rightarrow> Inr NaN
           | v # vs \<Rightarrow> Inr (Num (fold max vs v)))"

section \<open>The raster sampler: \<open>convert_raster_to_json.py\<close>\<close>

text \<open>
  What \<open>rioxarray.open_rasterio\<close> returns, as far as \<open>geotiff_to_json\<close> reads it: the
  data of band 0 and the coordinate values of the \<open>y\<close> and \<open>x\<close> dimensions.
\<close>

record raster =
  band0 :: "height ndarray2"
  y_values :: "real list"
  x_values :: "real list"

text \<open>
  The invariant of an opened raster: one \<open>y\<close> coordinate per row and one \<open>x\<close>
  coordinate per column.
\<close>

definition wf_raster :: "raster \<Rightarrow> bool" where
  "wf_raster r \<longleftrightarrow>
     length (band0 r) = length (y_values r) \<and> rectangular (band0 r) (length (x_values r))"

text \<open>The dictionary \<open>output_data\<close> that \<open>geotiff_to_json\<close> dumps and returns.\<close>

record sampled_grid =
  heights :: "height ndarray2"
  lats :: "real list"
  lons :: "real list"
  minHeight :: height
  maxHeight :: height
  shape :: "nat list"

section \<open>Geometries and feature tables\<close>

text \<open>
  A coordinate pair, a ring or line as its coordinate sequence. A single-part geometry is
  a point, a line string or a polygon; a polygon is the list of its rings as GeoJSON has
  it, the exterior ring first and then one ring per hole, and the empty polygon has no
  ring. A geometry is a single part, one of the three homogeneous multi-part types, or
  the empty collection (which the boundary of a point is).
\<close>

type_synonym coord = "real \<times> real"

datatype single =
    Point coord
  | LineString "coord list"
  | Polygon "coord list list"

datatype geometry =
    Single single
  | MultiPoint "coord list"
  | MultiLineString "coord list list"
  | MultiPolygon "coord list list list"
  | GeometryCollectionEmpty

text \<open>
  The parts of a geometry (\<open>shapely.get_parts\<close>, on which \<open>explode\<close> rests): a
  single-part geometry is its own only part, a multi-part geometry has one part per
  member, an empty collection has none.
\<close>

fun get_parts :: "geometry \<Rightarrow> single list" where
  "get_parts (Single g) = [g]"
| "get_parts (MultiPoint ps) = map Point ps"
| "get_parts (MultiLineString ls) = map LineString ls"
| "get_parts (MultiPolygon ps) = map Polygon ps"
| "get_parts GeometryCollectionEmpty = []"

text \<open>
  The topological boundary of a single-part geometry (the \<open>boundary\<close> attribute): of a
  point, the empty collection; of a line string, its two end points, and no point when
  the line is closed or empty; of a polygon, its rings, as one line string when there is
  no hole and as a multi-line string otherwise.
\<close>

fun boundary :: "single \<Rightarrow> geometry" where
  "boundary (Point p) = GeometryCollectionEmpty"
| "boundary (LineString cs) =
     (if cs = [] \<or> hd cs = last cs then MultiPoint [] else MultiPoint [hd cs, last cs])"
| "boundary (Polygon []) = MultiLineString []"
| "boundary (Polygon [shell]) = Single (LineString shell)"
| "boundary (Polygon rings) = MultiLineString rings"

text \<open>
  A row of a GeoDataFrame: its index label (a tuple, one entry per index level), its
  non-geometry columns and its geometry. A GeoDataFrame is the list of its rows.
\<close>

record 'g feature =
  index :: "nat list"
  properties :: "(string \<times> string) list"
  geometry :: 'g

type_synonym 'g geodataframe = "'g feature list"

text \<open>
  \<open>explode(index_parts=True)\<close>: every row is replaced by one row per part of its
  geometry, in order, with the row's other columns repeated and the part number added to
  the index as a further level. A row whose geometry has no part disappears.
\<close>

definition explode_row :: "geometry feature \<Rightarrow> single feature list" where
  "explode_row r =
     map (\<lambda>(k, g). \<lparr>index = index r @ [k], properties = properties r, geometry = g\<rparr>)
       (enumerate 0 (get_parts (geometry r)))"

definition explode :: "geometry geodataframe \<Rightarrow> single geodataframe" where
  "explode gdf = concat (map explode_row gdf)"

text \<open>\<open>reset_index(drop=True)\<close>: the index becomes 0, 1, 2, ... in row order.\<close>

definition reset_index :: "'g geodataframe \<Rightarrow> 'g geodataframe" where
  "reset_index gdf = map (\<lambda>(j, r). r\<lparr>index := [j]\<rparr>) (enumerate 0 gdf)"

text \<open>\<open>gdf["geometry"] = gdf.boundary\<close>: every geometry is replaced by its boundary.\<close>

definition set_boundary :: "single geodataframe \<Rightarrow> geometry geodataframe" where
  "set_boundary gdf =
     map (\<lambda>r. \<lparr>index = index r, properties = properties r, geometry = boundary (geometry r)\<rparr>)
       gdf"

section \<open>Files\<close>

text \<open>
  A GeoJSON feature collection is the list of its features, each a property mapping and
  a geometry. The store maps a path or URL to what is there: a directory, or a file or
  remote resource of one of the three formats the pipeline reads and writes. A path
  exists (\<open>Path.exists\<close>) when the store holds something under it.
\<close>

type_synonym geojson = "((string \<times> string) list \<times> geometry) list"

datatype artifact =
    GeoTIFF raster
  | JSON sampled_grid
  | GeoJSON geojson
  | Directory

type_synonym store = "string \<rightharpoonup> artifact"

text \<open>
  \<open>parent p\<close> is \<open>Path(p).parent\<close>: the path up to its last slash, the current
  directory \<open>.\<close> for a bare name and the root for a name directly under it.
  \<open>proper_ancestors d\<close> are the directories above \<open>d\<close>, the outermost first. The
  current directory and the root always exist.
\<close>

definition parent :: "string \<Rightarrow> string" where
  "parent p =
     (let d = rev (drop 1 (dropWhile (\<lambda>c. c \<noteq> CHR ''/'') (rev p)))
      in if CHR ''/'' \<in> set p then (if d = [] then ''/'' else d) else ''.'')"

definition proper_ancestors :: "string \<Rightarrow> string list" where
  "proper_ancestors d = map (\<lambda>n. take n d) (filter (\<lambda>n. d ! n = CHR ''/'') [1..<length d])"

definition is_dir :: "store \<Rightarrow> string \<Rightarrow> bool" where
  "is_dir st d \<longleftrightarrow> d = ''.'' \<or> d = ''/'' \<or> st d = Some Directory"

definition is_file :: "store \<Rightarrow> string \<Rightarrow> bool" where
  "is_file st p \<longleftrightarrow> (case st p of None \<Rightarrow> False | Some Directory \<Rightarrow> False | Some _ \<Rightarrow> True)"

text \<open>
  A file can be created or overwritten at \<open>p\<close> when the directory of \<open>p\<close> exists and
  \<open>p\<close> itself is not a directory; none of the writers creates a directory.
\<close>

definition writable :: "store \<Rightarrow> string \<Rightarrow> bool" where
  "writable st p \<longleftrightarrow> is_dir st (parent p) \<and> st p \<noteq> Some Directory"

text \<open>
  \<open>mkdir(parents=True, exist_ok=True)\<close>: nothing to do when the directory exists;
  \<open>FileExistsError\<close> when the path is a file, \<open>NotADirectoryError\<close> when a path above
  it is; otherwise the directory and the missing directories above it are created.
\<close>

definition mkdir_parents :: "string \<Rightarrow> store \<Rightarrow> error + store" where
  "mkdir_parents d st =
     (if is_dir st d then Inr st
      else if is_file st d then Inl FileExistsError
      else if list_ex (is_file st) (proper_ancestors d) then Inl NotADirectoryError
      else Inr (fold (\<lambda>a s. s(a \<mapsto> Directory)) (proper_ancestors d @ [d]) st))"

text \<open>
  \<open>rioxarray.open_rasterio\<close> and \<open>geopandas.read_file\<close> fail when the path or URL
  does not resolve to a file of their format. \<open>read_file\<close> numbers the features it has
  read 0, 1, 2, ... and \<open>to_file\<close> with the GeoJSON driver writes the properties and
  the geometry of every row, not the index (\<open>to_file\<close> below is the content it
  writes).
\<close>

definition open_rasterio :: "store \<Rightarrow> string \<Rightarrow> error + raster" where
  "open_rasterio st path =
     (case st path of Some (GeoTIFF r) \<Rightarrow> Inr r | _ \<Rightarrow> Inl RasterioIOError)"

definition read_file :: "store \<Rightarrow> string \<Rightarrow> error + geometry geodataframe" where
  "read_file st src =
     (case st src of
        Some (GeoJSON fc) \<Rightarrow>
          Inr (map (\<lambda>(i, (p, g)). \<lparr>index = [i], properties = p, geometry = g\<rparr>)
                 (enumerate 0 fc))
      | _ \<Rightarrow> Inl DataSourceError)"

definition to_file :: "single geodataframe \<Rightarrow> geojson" where
  "to_file gdf = map (\<lambda>r. (properties r, Single (geometry r))) gdf"

section \<open>The raster sampler, continued: \<open>geotiff_to_json\<close>\<close>

text \<open>
  \<open>geotiff_to_json\<close>, statement by statement: open the raster, slice band 0 and both
  coordinate axes with the step \<open>downsample\<close>, take the NaN-aware extrema of the
  sliced data, log the ranges of the sliced axes (\<open>lats.min()\<close> and \<open>lons.min()\<close> raise
  \<open>ValueError\<close> on an empty axis), build \<open>output_data\<close>, open \<open>output_path\<close> for
  writing (which fails in a directory that does not exist and on a directory), dump
  \<open>output_data\<close> there and return it. The function makes no check of \<open>downsample\<close>
  of its own and creates no directory.
\<close>

definition geotiff_to_json ::
  "string \<Rightarrow> string \<Rightarrow> int \<Rightarrow> store \<Rightarrow> error + store \<times> sampled_grid" where
  "geotiff_to_json input_path output_path downsample st =
     (case open_rasterio st input_path of Inl e \<Rightarrow> Inl e | Inr rast \<Rightarrow>
     (case py_slice2 downsample (band0 rast) of Inl e \<Rightarrow> Inl e | Inr data \<Rightarrow>
     (case py_slice downsample (y_values rast) of Inl e \<Rightarrow> Inl e | Inr lat_vals \<Rightarrow>
     (case py_slice downsample (x_values rast) of Inl e \<Rightarrow> Inl e | Inr lon_vals \<Rightarrow>
     (case nanmin data of Inl e \<Rightarrow> Inl e | Inr min_val \<Rightarrow>
     (case nanmax data of Inl e \<Rightarrow> Inl e | Inr max_val \<Rightarrow>
        (if lat_vals = [] \<or> lon_vals = [] then Inl ValueError
         else
           (let output_data =
                  \<lparr>heights = data, lats = lat_vals, lons = lon_vals,
                   minHeight = min_val, maxHeight = max_val, shape = shape_of data\<rparr>
            in (if \<not> is_dir st (parent output_path)
                then Inl (FileNotFoundError output_path)
                else if st output_path = Some Directory then Inl IsADirectoryError
                else Inr (st(output_path \<mapsto> JSON output_data), output_data))))))))))"

section \<open>The boundary decomposer: \<open>clean_world_geojson.py\<close>\<close>

text \<open>
  Lines 49 to 55 of \<open>clean_world_geojson\<close>: explode and renumber, replace every geometry
  by its boundary, explode and renumber again. The two \<open>assert isinstance(...,
  GeoDataFrame)\<close> statements hold of every value of the table type and have no branch
  here; the function makes no check of the geometry types. It creates no directory
  either: \<open>to_file\<close> fails when the output file cannot be created.
\<close>

definition decompose :: "geometry geodataframe \<Rightarrow> single geodataframe" where
  "decompose gdf =
     (let gdf_exploded = reset_index (explode gdf);
          gdf_boundary = set_boundary gdf_exploded;
          gdf_linestrings = reset_index (explode gdf_boundary)
      in gdf_linestrings)"

definition clean_world_geojson ::
  "string \<Rightarrow> string \<Rightarrow> store \<Rightarrow> error + store \<times> single geodataframe" where
  "clean_world_geojson source_url output_path st =
     (case read_file st source_url of
        Inl e \<Rightarrow> Inl e
      | Inr gdf \<Rightarrow>
          (let gdf_linestrings = decompose gdf
           in (if writable st output_path
               then Inr (st(output_path \<mapsto> GeoJSON (to_file gdf_linestrings)),
                         gdf_linestrings)
               else Inl DataSourceError)))"

section \<open>The geoid synthesizer: \<open>generate_geoid.py\<close>\<close>

text \<open>
  The array that \<open>earth_geoid.to_xarray()\<close> gives: the two coordinate axes and the grid
  of heights, one row per latitude and one column per longitude.
\<close>

record dataarray =
  latitude :: "real list"
  longitude :: "real list"
  grid :: "height ndarray2"

text \<open>
  Lines 67 to 71 of \<open>generate_geoid\<close>. \<open>new_lon_values\<close> is
  \<open>np.where(lon_values > 180, lon_values - 360, lon_values)\<close>; \<open>sortby_longitude\<close> is
  \<open>sortby("longitude")\<close>, a stable sort of the longitude axis that moves every column of
  the grid with its longitude.
\<close>

definition new_lon_values :: "real list \<Rightarrow> real list" where
  "new_lon_values lon_values = map (\<lambda>lon. if lon > 180 then lon - 360 else lon) lon_values"

definition sortby_longitude :: "dataarray \<Rightarrow> dataarray" where
  "sortby_longitude a =
     a\<lparr>longitude := sort (longitude a),
       grid := map (\<lambda>row. map snd (sort_key fst (zip (longitude a) row))) (grid a)\<rparr>"

definition reorder_longitude :: "dataarray \<Rightarrow> dataarray" where
  "reorder_longitude array =
     sortby_longitude (array\<lparr>longitude := new_lon_values (longitude array)\<rparr>)"

text \<open>
  \<open>to_raster\<close> is the raster that \<open>rio.to_raster\<close> leaves in the file, as
  \<open>open_rasterio\<close> reads it back. The file holds the grid and an affine transform, not
  the axes: the transform is taken from the first and the last coordinate of each axis
  and the number of cells, so the axes read back are evenly spaced between those two
  coordinates, whatever lay between them. With a single row or a single column no
  resolution can be computed and the identity transform is written: the axes read back
  are the cell centres 0.5, 1.5, ...
\<close>

definition evenly_spaced :: "real list \<Rightarrow> real list" where
  "evenly_spaced cs =
     map (\<lambda>i. hd cs + real i * ((last cs - hd cs) / real (length cs - 1))) [0..<length cs]"

definition cell_centres :: "nat \<Rightarrow> real list" where
  "cell_centres n = map (\<lambda>i. real i + 1 / 2) [0..<n]"

definition to_raster :: "dataarray \<Rightarrow> raster" where
  "to_raster array =
     (if length (latitude array) \<le> 1 \<or> length (longitude array) \<le> 1
      then \<lparr>band0 = grid array,
            y_values = cell_centres (length (latitude array)),
            x_values = cell_centres (length (longitude array))\<rparr>
      else \<lparr>band0 = grid array,
            y_values = evenly_spaced (latitude array),
            x_values = evenly_spaced (longitude array)\<rparr>)"

text \<open>
  \<open>save_geoid_as_geotiff\<close>: set the reference system and the names of the spatial
  dimensions (which change nothing here), create the directory of the output path, and
  write the raster there.
\<close>

definition save_geoid_as_geotiff :: "dataarray \<Rightarrow> string \<Rightarrow> store \<Rightarrow> error + store" where
  "save_geoid_as_geotiff array output_path st =
     (case mkdir_parents (parent output_path) st of
        Inl e \<Rightarrow> Inl e
      | Inr st1 \<Rightarrow>
          (if st1 output_path = Some Directory then Inl RasterioIOError
           else Inr (st1(output_path \<mapsto> GeoTIFF (to_raster array)))))"

text \<open>
  The spherical-harmonic synthesis is an external library: \<open>egm\<close> stands for
  \<open>EGM2008(lmax).geoid(...).to_xarray()\<close>, which returns the native array or raises.
  With the defaults of \<open>geoid\<close>, which is how line 62 calls it, the native longitude
  axis runs from 0 to 360 with both ends included.
\<close>

definition generate_geoid ::
  "(int \<Rightarrow> error + dataarray) \<Rightarrow> int \<Rightarrow> string \<Rightarrow> store \<Rightarrow> error + store" where
  "generate_geoid egm lmax output_path st =
     (case egm lmax of
        Inl e \<Rightarrow> Inl e
      | Inr array \<Rightarrow> save_geoid_as_geotiff (reorder_longitude array) output_path st)"

section \<open>The orchestrator: \<open>pipeline.py\<close>\<close>

record pipeline_config =
  lmax :: int
  downsample :: int
  geotiff_path :: string
  json_path :: string
  world_geojson_url :: string
  world_boundaries_path :: string

text \<open>
  Constructing a \<open>PipelineConfig\<close> validates the field constraints \<open>ge=1, le=2160\<close> of
  \<open>lmax\<close> and \<open>ge=1\<close> of \<open>downsample\<close>, and raises one \<open>ValidationError\<close> naming
  every field that fails.
\<close>

definition PipelineConfig ::
  "int \<Rightarrow> int \<Rightarrow> string \<Rightarrow> string \<Rightarrow> string \<Rightarrow> string \<Rightarrow> error + pipeline_config" where
  "PipelineConfig l d tif js url wb =
     (let bad = (if 1 \<le> l \<and> l \<le> 2160 then [] else [''lmax'']) @
                (if 1 \<le> d then [] else [''downsample''])
      in if bad = [] then
           Inr \<lparr>lmax = l, downsample = d, geotiff_path = tif, json_path = js,
                world_geojson_url = url, world_boundaries_path = wb\<rparr>
         else Inl (ValidationError bad))"



section \<open>Concrete inputs\<close>

text \<open>
  A 4 by 4 raster whose cell in row \<open>i\<close> and column \<open>j\<close> holds \<open>10 * i + j\<close>, a 2 by 2
  raster with one NaN cell, and a store that holds each under a path.
\<close>

definition raster4x4 :: raster where
  "raster4x4 =
     \<lparr>band0 = [[Num 0, Num 1, Num 2, Num 3],
                [Num 10, Num 11, Num 12, Num 13],
                [Num 20, Num 21, Num 22, Num 23],
                [Num 30, Num 31, Num 32, Num 33]],
      y_values = [90, 30, -30, -90],
      x_values = [-180, -90, 0, 90]\<rparr>"

definition raster_nan :: raster where
  "raster_nan =
     \<lparr>band0 = [[Num 5, NaN], [Num (-2), Num 7]],
      y_values = [45, -45],
      x_values = [-90, 90]\<rparr>"

definition raster_store :: store where
  "raster_store = [''a.tif'' \<mapsto> GeoTIFF raster4x4, ''b.tif'' \<mapsto> GeoTIFF raster_nan]"

text \<open>Collections of geometries for the decomposer, and a store that holds them.\<close>

definition unit_square :: "coord list" where
  "unit_square = [(0, 0), (1, 0), (1, 1), (0, 1), (0, 0)]"

definition far_square :: "coord list" where
  "far_square = [(5, 5), (6, 5), (6, 6), (5, 6), (5, 5)]"

definition big_square :: "coord list" where
  "big_square = [(-3, -3), (3, -3), (3, 3), (-3, 3), (-3, -3)]"

definition holed_polygon_geojson :: geojson where
  "holed_polygon_geojson = [([(''name'', ''Lesotho'')], Single (Polygon [big_square, unit_square]))]"

definition two_squares_row :: "geometry feature" where
  "two_squares_row =
     \<lparr>index = [0], properties = [(''name'', ''Islands'')],
      geometry = MultiPolygon [[unit_square], [far_square]]\<rparr>"

definition lines_geojson :: geojson where
  "lines_geojson =
     [([(''name'', ''ring'')], Single (LineString unit_square)),
      ([(''name'', ''path'')], Single (LineString [(0, 0), (2, 1), (4, 0)]))]"

definition lines_frame :: "geometry geodataframe" where
  "lines_frame =
     [\<lparr>index = [0], properties = [(''name'', ''ring'')],
       geometry = Single (LineString unit_square)\<rparr>,
      \<lparr>index = [1], properties = [(''name'', ''path'')],
       geometry = Single (LineString [(0, 0), (2, 1), (4, 0)])\<rparr>]"

definition geo_store :: store where
  "geo_store =
     [''holed.geojson'' \<mapsto> GeoJSON holed_polygon_geojson,
      ''lines.geojson'' \<mapsto> GeoJSON lines_geojson]"

text \<open>
  The native grid of degree 1 as the synthesis returns it: 5 latitudes from 90 to -90
  and 9 longitudes from 0 to 360, both ends included, 45 degrees apart. The cell in row
  \<open>i\<close> and column \<open>j\<close> holds \<open>10 * i + j\<close>, but the column of longitude 360 repeats
  that of longitude 0, the same meridian.
\<close>

definition native_grid :: dataarray where
  "native_grid =
     \<lparr>latitude = [90, 45, 0, -45, -90],
      longitude = [0, 45, 90, 135, 180, 225, 270, 315, 360],
      grid = [[Num 0, Num 1, Num 2, Num 3, Num 4, Num 5, Num 6, Num 7, Num 0],
              [Num 10, Num 11, Num 12, Num 13, Num 14, Num 15, Num 16, Num 17, Num 10],
              [Num 20, Num 21, Num 22, Num 23, Num 24, Num 25, Num 26, Num 27, Num 20],
              [Num 30, Num 31, Num 32, Num 33, Num 34, Num 35, Num 36, Num 37, Num 30],
              [Num 40, Num 41, Num 42, Num 43, Num 44, Num 45, Num 46, Num 47, Num 40]]\<rparr>"


text \<open>
  A synthesis that returns the native grid for every degree, and a first stage that
  reports success but writes no file.
\<close>

definition example_egm :: "int \<Rightarrow> error + dataarray" where
  "example_egm l = Inr native_grid"


section \<open>Notions of the specification\<close>

text \<open>
  The geometry types the claims speak of: a single line string; a polygon or
  multi-polygon; a line string that is open (not empty, its first and last coordinates
  different) and the two end points of an open line string; the number of rings of a
  single polygon (its exterior ring and one ring per hole). \<open>features_of\<close> is a table
  without its index.
\<close>

fun is_linestring :: "single \<Rightarrow> bool" where
  "is_linestring (LineString cs) = True"
| "is_linestring _ = False"

fun is_point :: "single \<Rightarrow> bool" where
  "is_point (Point p) = True"
| "is_point _ = False"

fun polygonal :: "geometry \<Rightarrow> bool" where
  "polygonal (Single (Polygon rings)) = True"
| "polygonal (MultiPolygon ps) = True"
| "polygonal _ = False"

fun open_line :: "geometry \<Rightarrow> bool" where
  "open_line (Single (LineString cs)) = (cs \<noteq> [] \<and> hd cs \<noteq> last cs)"
| "open_line _ = False"

fun end_points :: "geometry \<Rightarrow> single list" where
  "end_points (Single (LineString cs)) =
     (if cs = [] \<or> hd cs = last cs then [] else [Point (hd cs), Point (last cs)])"
| "end_points _ = []"

fun ring_count :: "single \<Rightarrow> nat" where
  "ring_count (Polygon rings) = length rings"
| "ring_count _ = 0"

definition features_of :: "'g geodataframe \<Rightarrow> ((string \<times> string) list \<times> 'g) list" where
  "features_of gdf = map (\<lambda>r. (properties r, geometry r)) gdf"

section \<open>Slicing lemmas\<close>

lemma length_take_every:
  "0 < s \<Longrightarrow> length (take_every s xs) = (length xs + s - 1) div s"
proof (induction s xs rule: take_every.induct)
  case (1 s)
  then show ?case by simp
next
  case (2 s v vs)
  show ?case
  proof (cases "s - 1 \<le> length vs")
    case True
    have "length (take_every s (v # vs)) = Suc ((length vs - (s - 1) + s - 1) div s)"
      using 2 by simp
    also have "length vs - (s - 1) + s - 1 = length vs" using True 2(2) by simp
    also have "Suc (length vs div s) = (length (v # vs) + s - 1) div s"
      using 2(2) by simp
    finally show ?thesis .
  next
    case False
    then have "length vs + 1 < s" by simp
    then have a: "(length (v # vs) + s - 1) div s = 1"
      using 2(2) by (simp add: div_nat_eqI)
    have "length (take_every s (v # vs)) = Suc ((0 + s - 1) div s)"
      using 2 False by simp
    then show ?thesis using a 2(2) by simp
  qed
qed

lemma nth_take_every:
  "0 < s \<Longrightarrow> i < length (take_every s xs) \<Longrightarrow> take_every s xs ! i = xs ! (i * s)"
proof (induction s xs arbitrary: i rule: take_every.induct)
  case (1 s)
  then show ?case by simp
next
  case (2 s v vs)
  show ?case
  proof (cases i)
    case 0
    then show ?thesis by simp
  next
    case (Suc k)
    have k: "k < length (take_every s (drop (s - 1) vs))" using 2(3) Suc by simp
    then have ne: "take_every s (drop (s - 1) vs) \<noteq> []" by auto
    then have "drop (s - 1) vs \<noteq> []" by auto
    then have le: "s - 1 \<le> length vs" by simp
    have "take_every s (v # vs) ! i = take_every s (drop (s - 1) vs) ! k"
      using Suc by simp
    also have "\<dots> = drop (s - 1) vs ! (k * s)" using 2(1)[OF 2(2) k] .
    also have "\<dots> = vs ! (s - 1 + k * s)" using le by simp
    also have "\<dots> = (v # vs) ! (i * s)" using Suc 2(2) by (simp add: nth_Cons')
    finally show ?thesis .
  qed
qed



lemma ceil_div_int:
  fixes n s :: int
  assumes "0 < s" "0 \<le> n"
  shows "(n + s - 1) div s = - (- n div s)"
proof (cases "n mod s = 0")
  case True
  define k where "k = n div s"
  have k: "n = k * s" using True div_mult_mod_eq[of n s] by (simp add: k_def)
  have "(k * s + (s - 1)) div s = k + (s - 1) div s"
    using assms(1) by (simp add: div_mult_self3)
  then have a: "(n + s - 1) div s = k" using k assms(1) by (simp add: algebra_simps)
  have "- n = (- k) * s" using k by simp
  then have "- n div s = - k" using assms(1) by (simp del: mult_minus_left)
  then show ?thesis using a by simp
next
  case False
  have a: "- n div s = - (n div s) - 1"
    using False assms(1) by (simp add: zdiv_zminus1_eq_if)
  have m: "1 \<le> n mod s" "n mod s < s" using False assms(1)
    by (smt (verit) pos_mod_sign, simp)
  have "n + s - 1 = (n div s + 1) * s + (n mod s - 1)"
    by (simp add: algebra_simps)
  then have "(n + s - 1) div s = n div s + 1 + (n mod s - 1) div s"
    using assms(1) by (metis add.commute div_mult_self2 less_irrefl mult.commute)
  then show ?thesis using a m by simp
qed

lemma ceil_div_nat:
  assumes "0 < s"
  shows "(n + s - 1) div s = nat \<lceil>real n / real s\<rceil>"
proof -
  have "\<lceil>real n / real s\<rceil> = \<lceil>of_int (int n) / (of_int (int s) :: real)\<rceil>" by simp
  also have "\<dots> = - (- int n div int s)" by (rule ceiling_divide_eq_div)
  also have "\<dots> = (int n + int s - 1) div int s"
    using ceil_div_int[of "int s" "int n"] assms by simp
  also have "\<dots> = int ((n + s - 1) div s)"
    using assms by (simp add: zdiv_int)
  finally show ?thesis by simp
qed


lemma take_every_Nil_iff: "take_every s xs = [] \<longleftrightarrow> xs = []"
  by (cases xs) simp_all

lemma slice_step_pos: "0 < s \<Longrightarrow> slice_step (int s) = take_every s"
  by (auto simp: fun_eq_iff slice_step_def)

lemma index_in_range:
  assumes "0 < s" "i < (n + s - 1) div s"
  shows "i * s < (n::nat)"
proof (rule ccontr)
  assume "\<not> i * s < n"
  then have "n + s - 1 \<le> i * s + (s - 1)" using assms(1) by simp
  then have "(n + s - 1) div s \<le> (i * s + (s - 1)) div s" by (rule div_le_mono)
  also have "\<dots> = i"
    by (rule div_nat_eqI) (use assms(1) in \<open>simp_all add: algebra_simps\<close>)
  finally show False using assms(2) by simp
qed

lemma set_non_nan: "set (non_nan hs) = {v. Num v \<in> set hs}"
  by (induction hs rule: non_nan.induct) auto

lemma nanmin_props:
  assumes "nanmin a = Inr m"
  shows "(\<forall>v. Num v \<in> set (concat a) \<longrightarrow>
            (\<exists>lo. m = Num lo \<and> lo \<le> v \<and> Num lo \<in> set (concat a)))"
    and "m = NaN \<longleftrightarrow> non_nan (concat a) = []"
proof -
  show "m = NaN \<longleftrightarrow> non_nan (concat a) = []"
    using assms by (auto simp: nanmin_def split: if_splits list.splits)
  show "\<forall>v. Num v \<in> set (concat a) \<longrightarrow>
            (\<exists>lo. m = Num lo \<and> lo \<le> v \<and> Num lo \<in> set (concat a))"
  proof (intro allI impI)
    fix v assume v: "Num v \<in> set (concat a)"
    then have vin: "v \<in> set (non_nan (concat a))" by (simp add: set_non_nan)
    then obtain w ws where ws: "non_nan (concat a) = w # ws"
      by (cases "non_nan (concat a)") auto
    have fm: "fold min ws w = Min (set (w # ws))" by (simp only: Min.set_eq_fold)
    have "concat a \<noteq> []" using v by force
    then have "nanmin a = Inr (Num (fold min ws w))"
      using ws by (simp add: nanmin_def del: concat_eq_Nil_conv)
    then have m: "m = Num (Min (set (w # ws)))"
      using assms fm by simp
    have "Min (set (w # ws)) \<le> v" using vin ws by (intro Min_le) auto
    moreover have "Min (set (w # ws)) \<in> set (w # ws)" by (intro Min_in) auto
    then have "Num (Min (set (w # ws))) \<in> set (concat a)"
      using ws set_non_nan[of "concat a"] by auto
    ultimately show "\<exists>lo. m = Num lo \<and> lo \<le> v \<and> Num lo \<in> set (concat a)"
      using m by blast
  qed
qed

lemma nanmax_props:
  assumes "nanmax a = Inr m"
  shows "(\<forall>v. Num v \<in> set (concat a) \<longrightarrow>
            (\<exists>hi. m = Num hi \<and> v \<le> hi \<and> Num hi \<in> set (concat a)))"
    and "m = NaN \<longleftrightarrow> non_nan (concat a) = []"
proof -
  show "m = NaN \<longleftrightarrow> non_nan (concat a) = []"
    using assms by (auto simp: nanmax_def split: if_splits list.splits)
  show "\<forall>v. Num v \<in> set (concat a) \<longrightarrow>
            (\<exists>hi. m = Num hi \<and> v \<le> hi \<and> Num hi \<in> set (concat a))"
  proof (intro allI impI)
    fix v assume v: "Num v \<in> set (concat a)"
    then have vin: "v \<in> set (non_nan (concat a))" by (simp add: set_non_nan)
    then obtain w ws where ws: "non_nan (concat a) = w # ws"
      by (cases "non_nan (concat a)") auto
    have fm: "fold max ws w = Max (set (w # ws))" by (simp only: Max.set_eq_fold)
    have "concat a \<noteq> []" using v by force
    then have "nanmax a = Inr (Num (fold max ws w))"
      using ws by (simp add: nanmax_def del: concat_eq_Nil_conv)
    then have m: "m = Num (Max (set (w # ws)))"
      using assms fm by simp
    have "v \<le> Max (set (w # ws))" using vin ws by (intro Max_ge) auto
    moreover have "Max (set (w # ws)) \<in> set (w # ws)" by (intro Max_in) auto
    then have "Num (Max (set (w # ws))) \<in> set (concat a)"
      using ws set_non_nan[of "concat a"] by auto
    ultimately show "\<exists>hi. m = Num hi \<and> v \<le> hi \<and> Num hi \<in> set (concat a)"
      using m by blast
  qed
qed

text \<open>
  On a raster with at least one row and one column, with a step of at least 1 and an
  output path that can be written, the function returns, and its result is built from
  the sliced arrays.
\<close>

lemma geotiff_to_json_returns:
  assumes s: "1 \<le> s"
    and f: "st input_path = Some (GeoTIFF rast)"
    and wf: "wf_raster rast"
    and ne: "band0 rast \<noteq> []" "x_values rast \<noteq> []"
    and w: "writable st output_path"
  shows "\<exists>out. geotiff_to_json input_path output_path (int s) st
                 = Inr (st(output_path \<mapsto> JSON out), out) \<and>
           heights out = map (take_every s) (take_every s (band0 rast)) \<and>
           lats out = take_every s (y_values rast) \<and>
           lons out = take_every s (x_values rast) \<and>
           nanmin (heights out) = Inr (minHeight out) \<and>
           nanmax (heights out) = Inr (maxHeight out) \<and>
           shape out = shape_of (heights out)"
proof -
  define data where "data = map (take_every s) (take_every s (band0 rast))"
  obtain r rs where rs: "band0 rast = r # rs" using ne(1) by (cases "band0 rast") auto
  have "length r = length (x_values rast)"
    using wf rs by (simp add: wf_raster_def rectangular_def)
  then have "r \<noteq> []" using ne(2) by auto
  then have "take_every s r \<noteq> []" by (simp add: take_every_Nil_iff)
  then have cne: "concat data \<noteq> []" by (simp add: data_def rs)
  have "\<exists>mn. nanmin data = Inr mn"
    using cne by (cases "non_nan (concat data)") (simp_all add: nanmin_def del: concat_eq_Nil_conv)
  then obtain mn where mn: "nanmin data = Inr mn" ..
  have "\<exists>mx. nanmax data = Inr mx"
    using cne by (cases "non_nan (concat data)") (simp_all add: nanmax_def del: concat_eq_Nil_conv)
  then obtain mx where mx: "nanmax data = Inr mx" ..
  have yne: "take_every s (y_values rast) \<noteq> []"
    using wf ne(1) by (auto simp: take_every_Nil_iff wf_raster_def)
  have xne: "take_every s (x_values rast) \<noteq> []"
    using ne(2) by (simp add: take_every_Nil_iff)
  let ?out = "\<lparr>heights = data, lats = take_every s (y_values rast),
               lons = take_every s (x_values rast),
               minHeight = mn, maxHeight = mx, shape = shape_of data\<rparr>"
  have wd: "is_dir st (parent output_path)" "st output_path \<noteq> Some Directory"
    using w by (simp_all add: writable_def)
  have "geotiff_to_json input_path output_path (int s) st
          = Inr (st(output_path \<mapsto> JSON ?out), ?out)"
    using s f mn mx yne xne wd
    by (simp add: geotiff_to_json_def open_rasterio_def py_slice2_def py_slice_def
        slice_step_pos Let_def data_def[symmetric])
  then show ?thesis using mn mx by (intro exI[of _ ?out]) (simp add: data_def)
qed

section \<open>The sampled grid\<close>

lemma set_take_every: "set (take_every s xs) \<subseteq> set xs"
proof (induction s xs rule: take_every.induct)
  case (1 s)
  then show ?case by simp
next
  case (2 s v vs)
  have "set (drop (s - 1) vs) \<subseteq> set vs" by (rule set_drop_subset)
  then show ?case using 2 by auto
qed

text \<open>
  Claim C3. For a raster of \<open>rows\<close> by \<open>cols\<close> cells (at least one of each, as every
  raster file has), every stride \<open>s \<ge> 1\<close> and an output path that can be written,
  \<open>geotiff_to_json\<close> returns; the shape it reports is \<open>(ceil(rows/s), ceil(cols/s))\<close>, the heights grid has exactly that
  many rows and columns, and its cell \<open>(i, j)\<close> is the cell \<open>(i * s, j * s)\<close> of the
  raster: every \<open>s\<close>-th row and column from index 0, with no averaging.
\<close>

theorem sampler_decimation_shape:
  assumes s: "1 \<le> s"
    and f: "st input_path = Some (GeoTIFF rast)"
    and wf: "wf_raster rast"
    and ne: "band0 rast \<noteq> []" "x_values rast \<noteq> []"
    and w: "writable st output_path"
  shows "\<exists>st' out. geotiff_to_json input_path output_path (int s) st = Inr (st', out) \<and>
           shape out = [nat \<lceil>real (length (band0 rast)) / real s\<rceil>,
                        nat \<lceil>real (length (x_values rast)) / real s\<rceil>] \<and>
           length (heights out) = shape out ! 0 \<and>
           (\<forall>r \<in> set (heights out). length r = shape out ! 1) \<and>
           (\<forall>i < shape out ! 0. \<forall>j < shape out ! 1.
               i * s < length (band0 rast) \<and> j * s < length (x_values rast) \<and>
               heights out ! i ! j = band0 rast ! (i * s) ! (j * s))"
proof -
  from geotiff_to_json_returns[of s st input_path rast output_path] s f wf ne w
  obtain out where run: "geotiff_to_json input_path output_path (int s) st
                           = Inr (st(output_path \<mapsto> JSON out), out)"
    and h: "heights out = map (take_every s) (take_every s (band0 rast))"
    and sh: "shape out = shape_of (heights out)"
    by blast
  have pos: "0 < s" using s by simp
  let ?rows = "length (band0 rast)" and ?cols = "length (x_values rast)"
  let ?R = "(?rows + s - 1) div s" and ?C = "(?cols + s - 1) div s"
  have all_rows: "\<forall>r \<in> set (band0 rast). length r = ?cols"
    using wf unfolding wf_raster_def rectangular_def list_all_iff by (rule conjunct2)
  have rowlen: "length r = ?cols" if "r \<in> set (band0 rast)" for r
    using bspec[OF all_rows that] .
  have kept: "length r = ?cols" if "r \<in> set (take_every s (band0 rast))" for r
    using subsetD[OF set_take_every that] by (rule rowlen)
  have len: "length (heights out) = ?R" by (simp add: h length_take_every pos)
  have rl: "length r = ?C" if "r \<in> set (heights out)" for r
    using that kept by (auto simp: h length_take_every pos)
  have kne: "take_every s (band0 rast) \<noteq> []" using ne(1) by (simp add: take_every_Nil_iff)
  then obtain k ks where ks: "take_every s (band0 rast) = k # ks"
    by (cases "take_every s (band0 rast)") auto
  have "length (take_every s k) = ?C"
    using kept[of k] ks by (simp add: length_take_every pos)
  then have shv: "shape out = [?R, ?C]"
    using len by (simp add: sh shape_of_def h ks)
  have cells: "i * s < ?rows \<and> j * s < ?cols \<and>
               heights out ! i ! j = band0 rast ! (i * s) ! (j * s)"
    if i: "i < ?R" and j: "j < ?C" for i j
  proof -
    have i': "i < length (take_every s (band0 rast))" using i by (simp add: length_take_every pos)
    have ir: "i * s < ?rows" using index_in_range[OF pos i] .
    have jr: "j * s < ?cols" using index_in_range[OF pos j] .
    have row: "take_every s (band0 rast) ! i = band0 rast ! (i * s)"
      using nth_take_every[OF pos i'] .
    have "length (band0 rast ! (i * s)) = ?cols" using rowlen ir by simp
    then have j': "j < length (take_every s (band0 rast ! (i * s)))"
      using j by (simp add: length_take_every pos)
    have "heights out ! i ! j = take_every s (band0 rast ! (i * s)) ! j"
      using i' row by (simp add: h)
    also have "\<dots> = band0 rast ! (i * s) ! (j * s)" using nth_take_every[OF pos j'] .
    finally show ?thesis using ir jr by simp
  qed
  have "shape out = [nat \<lceil>real ?rows / real s\<rceil>, nat \<lceil>real ?cols / real s\<rceil>]"
    by (simp only: shv ceil_div_nat[OF pos, symmetric])
  moreover have "length (heights out) = shape out ! 0" using len shv by simp
  moreover have "\<forall>r \<in> set (heights out). length r = shape out ! 1" using rl shv by simp
  moreover have "\<forall>i < shape out ! 0. \<forall>j < shape out ! 1.
               i * s < ?rows \<and> j * s < ?cols \<and>
               heights out ! i ! j = band0 rast ! (i * s) ! (j * s)"
    using cells shv by simp
  ultimately show ?thesis using run by blast
qed

text \<open>The 4 by 4 raster at stride 2: a 2 by 2 grid of the rows and columns 0 and 2.\<close>

theorem sampler_decimation_shape_witness:
  "1 \<le> (2::nat) \<and> raster_store ''a.tif'' = Some (GeoTIFF raster4x4) \<and> wf_raster raster4x4 \<and>
   band0 raster4x4 \<noteq> [] \<and> x_values raster4x4 \<noteq> [] \<and>
   writable raster_store ''a.json'' \<and>
   (\<exists>st' out. geotiff_to_json ''a.tif'' ''a.json'' (int 2) raster_store = Inr (st', out) \<and>
      shape out = [2, 2] \<and> heights out = [[Num 0, Num 2], [Num 20, Num 22]])"
proof -
  have h: "1 \<le> (2::nat)" "raster_store ''a.tif'' = Some (GeoTIFF raster4x4)"
    "wf_raster raster4x4" "band0 raster4x4 \<noteq> []" "x_values raster4x4 \<noteq> []"
    "writable raster_store ''a.json''"
    by (simp_all add: raster_store_def raster4x4_def wf_raster_def rectangular_def
        writable_def is_dir_def parent_def)
  from sampler_decimation_shape[of 2 raster_store "''a.tif''" raster4x4 "''a.json''"] h
  obtain st' out where r: "geotiff_to_json ''a.tif'' ''a.json'' (int 2) raster_store = Inr (st', out)"
    and sh: "shape out = [nat \<lceil>real (length (band0 raster4x4)) / real 2\<rceil>,
                          nat \<lceil>real (length (x_values raster4x4)) / real 2\<rceil>]"
    by blast
  have "map_sum id snd (geotiff_to_json ''a.tif'' ''a.json'' (int 2) raster_store) =
     Inr \<lparr>heights = [[Num 0, Num 2], [Num 20, Num 22]], lats = [90, -30], lons = [-180, 0],
             minHeight = Num 0, maxHeight = Num 22, shape = [2, 2]\<rparr>"
    by (simp add: geotiff_to_json_def open_rasterio_def raster_store_def raster4x4_def
      py_slice2_def py_slice_def slice_step_def nanmin_def nanmax_def shape_of_def Let_def
      is_dir_def parent_def)
  then have "heights out = [[Num 0, Num 2], [Num 20, Num 22]]" using r by simp
  moreover have "shape out = [2, 2]" using sh by (simp add: raster4x4_def)
  ultimately show ?thesis using h r by blast
qed

text \<open>
  Claim C4. For every such raster and every stride \<open>s \<ge> 1\<close>, \<open>minHeight\<close> and
  \<open>maxHeight\<close> are the NaN-aware extrema of the decimated grid: every number \<open>v\<close> in
  the heights grid has \<open>minHeight \<le> v \<le> maxHeight\<close>, both extrema are numbers that
  occur in the decimated grid itself, a grid of NaN cells only has NaN extrema, and a
  NaN cell of the raster that the stride keeps is NaN at its place in the heights grid.
\<close>

theorem sampler_extrema:
  assumes s: "1 \<le> s"
    and f: "st input_path = Some (GeoTIFF rast)"
    and wf: "wf_raster rast"
    and ne: "band0 rast \<noteq> []" "x_values rast \<noteq> []"
    and w: "writable st output_path"
  shows "\<exists>st' out. geotiff_to_json input_path output_path (int s) st = Inr (st', out) \<and>
           heights out = map (take_every s) (take_every s (band0 rast)) \<and>
           (\<forall>v. Num v \<in> set (concat (heights out)) \<longrightarrow>
              (\<exists>lo hi. minHeight out = Num lo \<and> maxHeight out = Num hi \<and>
                       lo \<le> v \<and> v \<le> hi \<and>
                       Num lo \<in> set (concat (heights out)) \<and>
                       Num hi \<in> set (concat (heights out)))) \<and>
           ((\<forall>h \<in> set (concat (heights out)). h = NaN) \<longrightarrow>
              minHeight out = NaN \<and> maxHeight out = NaN) \<and>
           (\<forall>i < length (heights out). \<forall>j < length (heights out ! i).
              band0 rast ! (i * s) ! (j * s) = NaN \<longrightarrow> heights out ! i ! j = NaN)"
proof -
  from geotiff_to_json_returns[of s st input_path rast output_path] s f wf ne w
  obtain out where run: "geotiff_to_json input_path output_path (int s) st
                           = Inr (st(output_path \<mapsto> JSON out), out)"
    and h: "heights out = map (take_every s) (take_every s (band0 rast))"
    and mn: "nanmin (heights out) = Inr (minHeight out)"
    and mx: "nanmax (heights out) = Inr (maxHeight out)"
    by blast
  have pos: "0 < s" using s by simp
  have ext: "\<exists>lo hi. minHeight out = Num lo \<and> maxHeight out = Num hi \<and> lo \<le> v \<and> v \<le> hi \<and>
                Num lo \<in> set (concat (heights out)) \<and> Num hi \<in> set (concat (heights out))"
    if v: "Num v \<in> set (concat (heights out))" for v
  proof -
    from nanmin_props(1)[OF mn] v obtain lo where
      "minHeight out = Num lo" "lo \<le> v" "Num lo \<in> set (concat (heights out))" by blast
    moreover from nanmax_props(1)[OF mx] v obtain hi where
      "maxHeight out = Num hi" "v \<le> hi" "Num hi \<in> set (concat (heights out))" by blast
    ultimately show ?thesis by blast
  qed
  have allnan: "minHeight out = NaN \<and> maxHeight out = NaN"
    if a: "\<forall>h \<in> set (concat (heights out)). h = NaN"
  proof -
    have "set (non_nan (concat (heights out))) = {}"
      unfolding set_non_nan using a by blast
    then have "non_nan (concat (heights out)) = []" by simp
    then show ?thesis using nanmin_props(2)[OF mn] nanmax_props(2)[OF mx] by simp
  qed
  have keep: "heights out ! i ! j = NaN"
    if i: "i < length (heights out)" and j: "j < length (heights out ! i)"
      and n: "band0 rast ! (i * s) ! (j * s) = NaN" for i j
  proof -
    have i': "i < length (take_every s (band0 rast))" using i by (simp add: h)
    have row: "heights out ! i = take_every s (band0 rast ! (i * s))"
      using i' nth_take_every[OF pos i'] by (simp add: h)
    have "heights out ! i ! j = band0 rast ! (i * s) ! (j * s)"
      using j nth_take_every[OF pos, of j "band0 rast ! (i * s)"] by (simp add: row)
    then show ?thesis using n by simp
  qed
  show ?thesis
    using run h ext allnan keep by blast
qed

text \<open>
  The raster with one NaN cell at stride 1: extrema -2 and 7, the NaN kept. The 4 by 4
  raster at stride 2: the maximum is 22, that of the kept cells, not the 33 of the raster.
\<close>

theorem sampler_extrema_witness:
  "1 \<le> (1::nat) \<and> raster_store ''b.tif'' = Some (GeoTIFF raster_nan) \<and> wf_raster raster_nan \<and>
   band0 raster_nan \<noteq> [] \<and> x_values raster_nan \<noteq> [] \<and>
   writable raster_store ''b.json'' \<and>
   (\<exists>st' out. geotiff_to_json ''b.tif'' ''b.json'' (int 1) raster_store = Inr (st', out) \<and>
      heights out = [[Num 5, NaN], [Num (-2), Num 7]] \<and>
      minHeight out = Num (-2) \<and> maxHeight out = Num 7) \<and>
   (\<exists>st' out. geotiff_to_json ''a.tif'' ''a.json'' (int 2) raster_store = Inr (st', out) \<and>
      minHeight out = Num 0 \<and> maxHeight out = Num 22)"
proof -
  have h: "1 \<le> (1::nat)" "raster_store ''b.tif'' = Some (GeoTIFF raster_nan)"
    "wf_raster raster_nan" "band0 raster_nan \<noteq> []" "x_values raster_nan \<noteq> []"
    "writable raster_store ''b.json''"
    by (simp_all add: raster_store_def raster_nan_def wf_raster_def rectangular_def
        writable_def is_dir_def parent_def)
  have k: "1 \<le> (2::nat)" "raster_store ''a.tif'' = Some (GeoTIFF raster4x4)"
    "wf_raster raster4x4" "band0 raster4x4 \<noteq> []" "x_values raster4x4 \<noteq> []"
    "writable raster_store ''a.json''"
    by (simp_all add: raster_store_def raster4x4_def wf_raster_def rectangular_def
        writable_def is_dir_def parent_def)
  from sampler_extrema[of 1 raster_store "''b.tif''" raster_nan "''b.json''"] h
  obtain st' out where r: "geotiff_to_json ''b.tif'' ''b.json'' (int 1) raster_store = Inr (st', out)"
    by blast
  from sampler_extrema[of 2 raster_store "''a.tif''" raster4x4 "''a.json''"] k
  obtain st2 out2 where r2: "geotiff_to_json ''a.tif'' ''a.json'' (int 2) raster_store = Inr (st2, out2)"
    by blast
  have "map_sum id snd (geotiff_to_json ''b.tif'' ''b.json'' (int 1) raster_store) =
     Inr \<lparr>heights = [[Num 5, NaN], [Num (-2), Num 7]], lats = [45, -45], lons = [-90, 90],
             minHeight = Num (-2), maxHeight = Num 7, shape = [2, 2]\<rparr>"
    by (simp add: geotiff_to_json_def open_rasterio_def raster_store_def raster_nan_def
      py_slice2_def py_slice_def slice_step_def nanmin_def nanmax_def shape_of_def Let_def
      is_dir_def parent_def)
  then have v: "heights out = [[Num 5, NaN], [Num (-2), Num 7]] \<and>
      minHeight out = Num (-2) \<and> maxHeight out = Num 7" using r by simp
  have "map_sum id snd (geotiff_to_json ''a.tif'' ''a.json'' (int 2) raster_store) =
     Inr \<lparr>heights = [[Num 0, Num 2], [Num 20, Num 22]], lats = [90, -30], lons = [-180, 0],
             minHeight = Num 0, maxHeight = Num 22, shape = [2, 2]\<rparr>"
    by (simp add: geotiff_to_json_def open_rasterio_def raster_store_def raster4x4_def
      py_slice2_def py_slice_def slice_step_def nanmin_def nanmax_def shape_of_def Let_def
      is_dir_def parent_def)
  then have v2: "minHeight out2 = Num 0 \<and> maxHeight out2 = Num 22" using r2 by simp
  show ?thesis using h r v r2 v2 by blast
qed



section \<open>Feature table lemmas\<close>

lemma length_reset_index: "length (reset_index gdf) = length gdf"
  by (simp add: reset_index_def)

lemma geometry_reset_index: "map geometry (reset_index gdf) = map geometry gdf"
proof -
  have "map geometry (reset_index gdf) = map (geometry \<circ> snd) (enumerate 0 gdf)"
    by (simp add: reset_index_def comp_def case_prod_unfold)
  also have "\<dots> = map geometry (map snd (enumerate 0 gdf))" by (simp only: map_map)
  finally show ?thesis by (simp only: map_snd_enumerate)
qed

lemma properties_reset_index: "map properties (reset_index gdf) = map properties gdf"
proof -
  have "map properties (reset_index gdf) = map (properties \<circ> snd) (enumerate 0 gdf)"
    by (simp add: reset_index_def comp_def case_prod_unfold)
  also have "\<dots> = map properties (map snd (enumerate 0 gdf))" by (simp only: map_map)
  finally show ?thesis by (simp only: map_snd_enumerate)
qed

lemma index_reset_index: "map index (reset_index gdf) = map (\<lambda>j. [j]) [0..<length gdf]"
proof -
  have "map index (reset_index gdf) = map ((\<lambda>j. [j]) \<circ> fst) (enumerate 0 gdf)"
    by (simp add: reset_index_def comp_def case_prod_unfold)
  also have "\<dots> = map (\<lambda>j. [j]) (map fst (enumerate 0 gdf))" by (simp only: map_map)
  finally show ?thesis by (simp only: map_fst_enumerate add_0)
qed

lemma geometry_explode_row: "map geometry (explode_row r) = get_parts (geometry r)"
proof -
  have "map geometry (explode_row r) = map snd (enumerate 0 (get_parts (geometry r)))"
    by (simp add: explode_row_def comp_def case_prod_unfold)
  then show ?thesis by simp
qed

lemma properties_explode_row:
  "map properties (explode_row r) = replicate (length (get_parts (geometry r))) (properties r)"
  by (simp add: explode_row_def comp_def case_prod_unfold map_replicate_const)

lemma geometry_explode: "map geometry (explode gdf) = concat (map (get_parts \<circ> geometry) gdf)"
  by (simp add: explode_def map_concat comp_def geometry_explode_row)

lemma geometry_set_boundary: "map geometry (set_boundary gdf) = map (boundary \<circ> geometry) gdf"
  by (simp add: set_boundary_def comp_def)

lemma geometry_decompose:
  "map geometry (decompose gdf) =
     concat (map (get_parts \<circ> boundary) (concat (map (get_parts \<circ> geometry) gdf)))"
proof -
  let ?B = "set_boundary (reset_index (explode gdf))"
  have "map geometry (decompose gdf) = map geometry (explode ?B)"
    by (simp add: decompose_def Let_def geometry_reset_index)
  also have "\<dots> = concat (map get_parts (map geometry ?B))"
    by (simp add: geometry_explode)
  also have "map geometry ?B = map boundary (map geometry (reset_index (explode gdf)))"
    by (simp add: geometry_set_boundary)
  also have "map geometry (reset_index (explode gdf)) = map geometry (explode gdf)"
    by (rule geometry_reset_index)
  also have "map geometry (explode gdf) = concat (map (get_parts \<circ> geometry) gdf)"
    by (rule geometry_explode)
  finally show ?thesis by simp
qed

lemma parts_boundary_polygon: "get_parts (boundary (Polygon rings)) = map LineString rings"
proof (cases rings)
  case Nil
  then show ?thesis by simp
next
  case (Cons shell holes)
  then show ?thesis by (cases holes) simp_all
qed

lemma read_file_geometry:
  assumes "st src = Some (GeoJSON fc)"
  shows "\<exists>gdf. read_file st src = Inr gdf \<and> map geometry gdf = map snd fc \<and>
           map properties gdf = map fst fc"
proof -
  let ?gdf = "map (\<lambda>(i, (p, g)). \<lparr>index = [i], properties = p, geometry = g\<rparr>) (enumerate 0 fc)"
  have r: "read_file st src = Inr ?gdf" using assms by (simp add: read_file_def)
  have "map geometry ?gdf = map (snd \<circ> snd) (enumerate 0 fc)"
    by (simp add: comp_def case_prod_unfold)
  also have "\<dots> = map snd (map snd (enumerate 0 fc))" by (simp only: map_map)
  finally have g: "map geometry ?gdf = map snd fc" by (simp only: map_snd_enumerate)
  have "map properties ?gdf = map (fst \<circ> snd) (enumerate 0 fc)"
    by (simp add: comp_def case_prod_unfold)
  also have "\<dots> = map fst (map snd (enumerate 0 fc))" by (simp only: map_map)
  finally have p: "map properties ?gdf = map fst fc" by (simp only: map_snd_enumerate)
  show ?thesis using r g p by blast
qed

lemma sum_list_map_concat:
  "sum_list (map f (concat xss)) = (\<Sum>xs \<leftarrow> xss. \<Sum>x \<leftarrow> xs. (f x :: nat))"
  by (induction xss) simp_all

lemma polygonal_parts:
  assumes "polygonal g" and "p \<in> set (get_parts g)"
  shows "\<exists>rings. p = Polygon rings"
  using assms by (induction g rule: polygonal.induct) auto

lemma boundaries_of_polygons:
  assumes "\<forall>p \<in> set ps. \<exists>rings. p = Polygon rings"
  shows "(\<forall>q \<in> set (concat (map (get_parts \<circ> boundary) ps)). is_linestring q) \<and>
         length (concat (map (get_parts \<circ> boundary) ps)) = sum_list (map ring_count ps)"
  using assms
proof (induction ps)
  case Nil
  then show ?case by simp
next
  case (Cons p ps)
  then obtain rings where p: "p = Polygon rings" by auto
  have "\<forall>q \<in> set (get_parts (boundary p)). is_linestring q"
    by (auto simp: p parts_boundary_polygon)
  moreover have "length (get_parts (boundary p)) = ring_count p"
    by (simp add: p parts_boundary_polygon)
  ultimately show ?case using Cons by auto
qed

section \<open>The boundary decomposer\<close>

text \<open>
  Claim C1. For every source collection whose geometries are all Polygon or MultiPolygon
  (and an output path that can be written), \<open>clean_world_geojson\<close> returns and writes
  a collection in which every geometry is a
  single LineString, and the number of its features is the number of rings (the exterior
  ring and one ring per hole) summed over all single polygons into which the input
  explodes.
\<close>

theorem decomposer_one_linestring_per_ring:
  assumes src: "st source_url = Some (GeoJSON fc)"
    and poly: "\<forall>f \<in> set fc. polygonal (snd f)"
    and w: "writable st output_path"
  shows "\<exists>st' out. clean_world_geojson source_url output_path st = Inr (st', out) \<and>
           st' output_path = Some (GeoJSON (to_file out)) \<and>
           (\<forall>r \<in> set out. is_linestring (geometry r)) \<and>
           length out = (\<Sum>f \<leftarrow> fc. \<Sum>p \<leftarrow> get_parts (snd f). ring_count p)"
proof -
  from read_file_geometry[of st source_url fc] src obtain gdf where
    rd: "read_file st source_url = Inr gdf" and g: "map geometry gdf = map snd fc" by blast
  let ?out = "decompose gdf"
  let ?ps = "concat (map (get_parts \<circ> geometry) gdf)"
  have run: "clean_world_geojson source_url output_path st
               = Inr (st(output_path \<mapsto> GeoJSON (to_file ?out)), ?out)"
    using rd w by (simp add: clean_world_geojson_def Let_def)
  have ps: "?ps = concat (map get_parts (map snd fc))"
    using g by (metis map_map)
  have "\<forall>p \<in> set ?ps. \<exists>rings. p = Polygon rings"
    unfolding ps using poly polygonal_parts by fastforce
  from boundaries_of_polygons[OF this]
  have ls: "\<forall>q \<in> set (map geometry ?out). is_linestring q"
    and len: "length (map geometry ?out) = sum_list (map ring_count ?ps)"
    unfolding geometry_decompose by blast+
  have "sum_list (map ring_count ?ps) = (\<Sum>f \<leftarrow> fc. \<Sum>p \<leftarrow> get_parts (snd f). ring_count p)"
    unfolding ps by (simp add: sum_list_map_concat comp_def)
  then have "length ?out = (\<Sum>f \<leftarrow> fc. \<Sum>p \<leftarrow> get_parts (snd f). ring_count p)"
    using len by simp
  moreover have "\<forall>r \<in> set ?out. is_linestring (geometry r)" using ls by simp
  ultimately show ?thesis using run by (intro exI[of _ "st(output_path \<mapsto> GeoJSON (to_file ?out))"] exI[of _ ?out]) simp
qed

text \<open>A polygon with one hole gives exactly two LineString features, one per ring.\<close>

theorem decomposer_one_linestring_per_ring_witness:
  "geo_store ''holed.geojson'' = Some (GeoJSON holed_polygon_geojson) \<and>
   map snd holed_polygon_geojson = [Single (Polygon [big_square, unit_square])] \<and>
   writable geo_store ''boundaries.json'' \<and>
   (\<exists>st' out. clean_world_geojson ''holed.geojson'' ''boundaries.json'' geo_store = Inr (st', out) \<and>
      map geometry out = [LineString big_square, LineString unit_square] \<and> length out = 2)"
proof -
  have h: "geo_store ''holed.geojson'' = Some (GeoJSON holed_polygon_geojson)"
    "\<forall>f \<in> set holed_polygon_geojson. polygonal (snd f)"
    "writable geo_store ''boundaries.json''"
    by (simp_all add: geo_store_def holed_polygon_geojson_def writable_def is_dir_def
        parent_def)
  from decomposer_one_linestring_per_ring[of geo_store "''holed.geojson''" holed_polygon_geojson
      "''boundaries.json''"] h
  obtain st' out where
    r: "clean_world_geojson ''holed.geojson'' ''boundaries.json'' geo_store = Inr (st', out)"
    and n: "length out = (\<Sum>f \<leftarrow> holed_polygon_geojson. \<Sum>p \<leftarrow> get_parts (snd f). ring_count p)"
    by blast
  have "map_sum id (map geometry \<circ> snd)
          (clean_world_geojson ''holed.geojson'' ''boundaries.json'' geo_store)
        = Inr [LineString big_square, LineString unit_square]"
    by (simp add: clean_world_geojson_def read_file_def geo_store_def holed_polygon_geojson_def
        decompose_def explode_def explode_row_def reset_index_def set_boundary_def Let_def
        writable_def is_dir_def parent_def)
  then have g: "map geometry out = [LineString big_square, LineString unit_square]"
    using r by simp
  have l: "length out = 2" using n by (simp add: holed_polygon_geojson_def)
  have e: "\<exists>st' out.
      clean_world_geojson ''holed.geojson'' ''boundaries.json'' geo_store = Inr (st', out) \<and>
      map geometry out = [LineString big_square, LineString unit_square] \<and> length out = 2"
    by (rule exI[of _ st'], rule exI[of _ out]) (simp only: r g l simp_thms)
  have h': "map snd holed_polygon_geojson = [Single (Polygon [big_square, unit_square])]"
    by (simp add: holed_polygon_geojson_def)
  show ?thesis by (rule conjI[OF h(1) conjI[OF h' conjI[OF h(3) e]]])
qed

text \<open>
  The rows of a table are fixed by its index and its features; the features of the
  decomposed table are, row by row of the input, the parts of the boundaries of the
  parts of the geometry, each with the properties of that row.
\<close>

lemma feature_eq:
  "(r :: 'g feature) = \<lparr>index = index r, properties = properties r, geometry = geometry r\<rparr>"
  by (cases r) simp

lemma reset_index_features:
  "reset_index gdf =
     map (\<lambda>(j, (p, g)). \<lparr>index = [j], properties = p, geometry = g\<rparr>)
       (enumerate 0 (features_of gdf))"
proof -
  have "enumerate 0 (features_of gdf)
          = map (\<lambda>(j, r). (j, (properties r, geometry r))) (enumerate 0 gdf)"
    by (simp add: features_of_def enumerate_eq_zip zip_map2)
  then show ?thesis
    by (simp add: reset_index_def comp_def case_prod_unfold)
qed

lemma features_of_reset_index: "features_of (reset_index gdf) = features_of gdf"
proof -
  have "features_of (reset_index gdf) = map ((\<lambda>r. (properties r, geometry r)) \<circ> snd) (enumerate 0 gdf)"
    by (simp add: features_of_def reset_index_def comp_def case_prod_unfold)
  also have "\<dots> = map (\<lambda>r. (properties r, geometry r)) (map snd (enumerate 0 gdf))"
    by (simp only: map_map)
  finally show ?thesis by (simp only: map_snd_enumerate features_of_def)
qed

lemma features_of_explode_row:
  "features_of (explode_row r) = map (Pair (properties r)) (get_parts (geometry r))"
proof -
  have "features_of (explode_row r)
          = map (Pair (properties r) \<circ> snd) (enumerate 0 (get_parts (geometry r)))"
    by (simp add: features_of_def explode_row_def comp_def case_prod_unfold)
  also have "\<dots> = map (Pair (properties r)) (map snd (enumerate 0 (get_parts (geometry r))))"
    by (simp only: map_map)
  finally show ?thesis by (simp only: map_snd_enumerate)
qed

lemma features_of_append: "features_of (xs @ ys) = features_of xs @ features_of ys"
  by (simp add: features_of_def)

lemma features_of_Nil: "features_of [] = []"
  by (simp add: features_of_def)

lemma features_of_Cons: "features_of (r # gdf) = (properties r, geometry r) # features_of gdf"
  by (simp add: features_of_def)

lemma features_of_explode:
  "features_of (explode gdf)
     = concat (map (\<lambda>(p, g). map (Pair p) (get_parts g)) (features_of gdf))"
proof (induction gdf)
  case Nil
  then show ?case by (simp add: explode_def features_of_Nil)
next
  case (Cons r gdf)
  have "explode (r # gdf) = explode_row r @ explode gdf" by (simp add: explode_def)
  then have "features_of (explode (r # gdf))
               = features_of (explode_row r) @ features_of (explode gdf)"
    by (simp add: features_of_append)
  then show ?case using Cons by (simp add: features_of_explode_row features_of_Cons)
qed

lemma features_of_set_boundary:
  "features_of (set_boundary gdf) = map (\<lambda>(p, g). (p, boundary g)) (features_of gdf)"
  by (simp add: features_of_def set_boundary_def)

lemma boundary_parts_of_parts:
  "concat (map (\<lambda>(p, g). map (Pair p) (get_parts g))
             (map (\<lambda>(p, g). (p, boundary g)) (map (Pair q) parts)))
     = map (Pair q) (concat (map (get_parts \<circ> boundary) parts))"
  by (induction parts) simp_all

lemma boundary_parts_of_features:
  "concat (map (\<lambda>(p, g). map (Pair p) (get_parts g))
             (map (\<lambda>(p, g). (p, boundary g))
                (concat (map (\<lambda>(p, g). map (Pair p) (get_parts g)) fs))))
     = concat (map (\<lambda>(p, g). map (Pair p) (concat (map (get_parts \<circ> boundary) (get_parts g))))
                 fs)"
proof (induction fs)
  case Nil
  then show ?case by simp
next
  case (Cons f fs)
  obtain q g where f: "f = (q, g)" by (cases f)
  have "concat (map (\<lambda>(p, g). map (Pair p) (get_parts g))
             (map (\<lambda>(p, g). (p, boundary g))
                (concat (map (\<lambda>(p, g). map (Pair p) (get_parts g)) (f # fs)))))
        = concat (map (\<lambda>(p, g). map (Pair p) (get_parts g))
             (map (\<lambda>(p, g). (p, boundary g)) (map (Pair q) (get_parts g))))
          @ concat (map (\<lambda>(p, g). map (Pair p) (get_parts g))
             (map (\<lambda>(p, g). (p, boundary g))
                (concat (map (\<lambda>(p, g). map (Pair p) (get_parts g)) fs))))"
    by (simp only: f list.map concat.simps map_append concat_append prod.case)
  also have "\<dots> = map (Pair q) (concat (map (get_parts \<circ> boundary) (get_parts g)))
          @ concat (map (\<lambda>(p, g). map (Pair p)
                (concat (map (get_parts \<circ> boundary) (get_parts g)))) fs)"
    by (simp only: boundary_parts_of_parts Cons)
  finally show ?case by (simp only: f list.map concat.simps prod.case)
qed

lemma features_of_decompose:
  "features_of (decompose gdf)
     = concat (map (\<lambda>(p, g). map (Pair p) (concat (map (get_parts \<circ> boundary) (get_parts g))))
                 (features_of gdf))"
proof -
  have "features_of (decompose gdf)
          = concat (map (\<lambda>(p, g). map (Pair p) (get_parts g))
              (map (\<lambda>(p, g). (p, boundary g))
                 (concat (map (\<lambda>(p, g). map (Pair p) (get_parts g)) (features_of gdf)))))"
    by (simp only: decompose_def Let_def features_of_reset_index features_of_explode
        features_of_set_boundary)
  then show ?thesis by (simp only: boundary_parts_of_features)
qed

lemma index_decompose:
  "map index (decompose gdf) = map (\<lambda>j. [j]) [0..<length (decompose gdf)]"
proof -
  let ?x = "explode (set_boundary (reset_index (explode gdf)))"
  have d: "decompose gdf = reset_index ?x" by (simp add: decompose_def Let_def)
  show ?thesis unfolding d by (simp only: index_reset_index length_reset_index)
qed

lemma decompose_rows:
  "decompose gdf =
     map (\<lambda>(j, (p, g)). \<lparr>index = [j], properties = p, geometry = g\<rparr>)
       (enumerate 0 (features_of (decompose gdf)))"
proof -
  let ?x = "explode (set_boundary (reset_index (explode gdf)))"
  have d: "decompose gdf = reset_index ?x" by (simp add: decompose_def Let_def)
  show ?thesis unfolding d features_of_reset_index by (rule reset_index_features)
qed

lemma read_file_features:
  assumes "st src = Some (GeoJSON fc)"
  shows "\<exists>gdf. read_file st src = Inr gdf \<and> features_of gdf = fc"
proof -
  let ?gdf = "map (\<lambda>(i, (p, g)). \<lparr>index = [i], properties = p, geometry = g\<rparr>) (enumerate 0 fc)"
  have r: "read_file st src = Inr ?gdf" using assms by (simp add: read_file_def)
  have "features_of ?gdf = map snd (enumerate 0 fc)"
    by (simp add: features_of_def comp_def case_prod_unfold)
  then have "features_of ?gdf = fc" by (simp only: map_snd_enumerate)
  then show ?thesis using r by blast
qed

lemma nth_reset_index:
  "j < length gdf \<Longrightarrow> reset_index gdf ! j = (gdf ! j)\<lparr>index := [j]\<rparr>"
  by (simp add: reset_index_def nth_enumerate_eq)

lemma explode_row_multipolygon:
  assumes "geometry r = MultiPolygon ps" and "k < length ps"
  shows "explode_row r ! k
           = \<lparr>index = index r @ [k], properties = properties r, geometry = Polygon (ps ! k)\<rparr>"
  using assms by (simp add: explode_row_def nth_enumerate_eq)

lemma length_explode_row: "length (explode_row r) = length (get_parts (geometry r))"
  by (simp add: explode_row_def)


lemma decompose_unfold:
  "decompose gdf = reset_index (explode (set_boundary (reset_index (explode gdf))))"
  by (simp add: decompose_def Let_def)

text \<open>
  Claim C9. The first step of the decomposition is the part explosion, and the table
  it leaves is what the later steps work on. In it a MultiPolygon row with \<open>N\<close>
  constituent polygons has become exactly \<open>N\<close> rows, the \<open>k\<close>-th holding the \<open>k\<close>-th
  constituent as a Polygon and the properties of the parent row unchanged, and the rows
  of the whole table are numbered 0, 1, 2, ... without gaps. In the table that the
  decomposition returns, the features that come from that row are the rings of its
  constituent polygons in order, each with the properties of the parent row, and the
  rows are again numbered 0, 1, 2, ...
\<close>

theorem part_explosion:
  assumes mp: "geometry r = MultiPolygon ps"
  shows "decompose (pre @ r # post)
           = reset_index (explode (set_boundary (reset_index (explode (pre @ r # post))))) \<and>
         length (explode_row r) = length ps \<and>
         length (reset_index (explode (pre @ r # post)))
           = length (explode pre) + length ps + length (explode post) \<and>
         (\<forall>k < length ps.
            reset_index (explode (pre @ r # post)) ! (length (explode pre) + k)
              = \<lparr>index = [length (explode pre) + k], properties = properties r,
                 geometry = Polygon (ps ! k)\<rparr>) \<and>
         map index (reset_index (explode (pre @ r # post)))
           = map (\<lambda>j. [j]) [0..<length (explode (pre @ r # post))] \<and>
         features_of (decompose (pre @ r # post))
           = features_of (decompose pre)
             @ concat (map (\<lambda>p. map (\<lambda>ring. (properties r, LineString ring)) p) ps)
             @ features_of (decompose post) \<and>
         map index (decompose (pre @ r # post))
           = map (\<lambda>j. [j]) [0..<length (decompose (pre @ r # post))]"
proof -
  let ?n = "length (explode pre)"
  have lr: "length (explode_row r) = length ps" by (simp add: length_explode_row mp)
  have ex: "explode (pre @ r # post) = explode pre @ explode_row r @ explode post"
    by (simp add: explode_def)
  have len: "length (explode (pre @ r # post)) = ?n + length ps + length (explode post)"
    by (simp add: ex lr)
  have row: "reset_index (explode (pre @ r # post)) ! (?n + k)
              = \<lparr>index = [?n + k], properties = properties r, geometry = Polygon (ps ! k)\<rparr>"
    if k: "k < length ps" for k
  proof -
    have "?n + k < length (explode (pre @ r # post))" using k len by simp
    then have "reset_index (explode (pre @ r # post)) ! (?n + k)
                 = (explode (pre @ r # post) ! (?n + k))\<lparr>index := [?n + k]\<rparr>"
      by (rule nth_reset_index)
    also have "explode (pre @ r # post) ! (?n + k) = explode_row r ! k"
      using k lr by (simp add: ex nth_append)
    also have "\<dots> = \<lparr>index = index r @ [k], properties = properties r,
                       geometry = Polygon (ps ! k)\<rparr>"
      using explode_row_multipolygon[OF mp k] .
    finally show ?thesis by simp
  qed
  have rings: "concat (map (get_parts \<circ> boundary) (get_parts (geometry r)))
                 = concat (map (map LineString) ps)"
    by (simp add: mp comp_def parts_boundary_polygon)
  have "map (Pair (properties r)) (concat (map (map LineString) ps))
          = concat (map (\<lambda>p. map (\<lambda>ring. (properties r, LineString ring)) p) ps)"
    by (simp add: map_concat comp_def)
  then have feats: "features_of (decompose (pre @ r # post))
           = features_of (decompose pre)
             @ concat (map (\<lambda>p. map (\<lambda>ring. (properties r, LineString ring)) p) ps)
             @ features_of (decompose post)"
    by (simp add: features_of_decompose features_of_append features_of_Cons rings)
  show ?thesis
    using lr len row feats
    by (simp add: length_reset_index index_reset_index index_decompose decompose_unfold[symmetric])
qed

text \<open>
  A MultiPolygon of two squares: two Polygon rows after the first step, and in the
  result the two rings as LineStrings, with the name of the parent, numbered 0 and 1.
\<close>

theorem part_explosion_witness:
  "geometry two_squares_row = MultiPolygon [[unit_square], [far_square]] \<and>
   reset_index (explode ([] @ two_squares_row # [])) =
     [\<lparr>index = [0], properties = [(''name'', ''Islands'')], geometry = Polygon [unit_square]\<rparr>,
      \<lparr>index = [1], properties = [(''name'', ''Islands'')], geometry = Polygon [far_square]\<rparr>] \<and>
   decompose ([] @ two_squares_row # []) =
     [\<lparr>index = [0], properties = [(''name'', ''Islands'')], geometry = LineString unit_square\<rparr>,
      \<lparr>index = [1], properties = [(''name'', ''Islands'')], geometry = LineString far_square\<rparr>]"
proof -
  have h: "geometry two_squares_row = MultiPolygon [[unit_square], [far_square]]"
    by (simp add: two_squares_row_def)
  let ?out = "reset_index (explode ([] @ two_squares_row # []))"
  note t = part_explosion[OF h, of "[]" "[]"]
  from t
  have l: "length ?out = 2"
    and rows: "\<forall>k < 2. ?out ! k = \<lparr>index = [k], properties = properties two_squares_row,
                 geometry = Polygon ([[unit_square], [far_square]] ! k)\<rparr>"
    by (simp_all add: explode_def)
  have "?out ! 0 = \<lparr>index = [0], properties = [(''name'', ''Islands'')], geometry = Polygon [unit_square]\<rparr>"
    using rows by (simp add: two_squares_row_def)
  moreover have "?out ! 1 = \<lparr>index = [1], properties = [(''name'', ''Islands'')], geometry = Polygon [far_square]\<rparr>"
    using rows by (simp add: two_squares_row_def)
  ultimately have a: "?out = [\<lparr>index = [0], properties = [(''name'', ''Islands'')], geometry = Polygon [unit_square]\<rparr>,
      \<lparr>index = [1], properties = [(''name'', ''Islands'')], geometry = Polygon [far_square]\<rparr>]"
    using l by (intro nth_equalityI) (auto simp: less_Suc_eq numeral_2_eq_2)
  have d: "decompose ([] @ two_squares_row # []) = reset_index (explode (set_boundary ?out))"
    using t by (rule conjunct1)
  have b: "decompose ([] @ two_squares_row # []) =
     [\<lparr>index = [0], properties = [(''name'', ''Islands'')], geometry = LineString unit_square\<rparr>,
      \<lparr>index = [1], properties = [(''name'', ''Islands'')], geometry = LineString far_square\<rparr>]"
    unfolding d a by (simp add: set_boundary_def explode_def explode_row_def reset_index_def)
  show ?thesis by (rule conjI[OF h conjI[OF a b]])
qed

lemma parts_boundary_linestring:
  "get_parts (boundary (LineString cs)) =
     (if open_line (Single (LineString cs)) then [Point (hd cs), Point (last cs)] else [])"
  by simp

lemma boundaries_of_linestrings:
  assumes "\<forall>g \<in> set gs. \<exists>cs. g = Single (LineString cs)"
  shows "(\<forall>q \<in> set (concat (map (get_parts \<circ> boundary) (concat (map get_parts gs)))).
            is_point q) \<and>
         length (concat (map (get_parts \<circ> boundary) (concat (map get_parts gs))))
           = 2 * length (filter open_line gs)"
  using assms
proof (induction gs)
  case Nil
  then show ?case by simp
next
  case (Cons g gs)
  then obtain cs where g: "g = Single (LineString cs)" by auto
  show ?case using Cons by (simp add: g)
qed


lemma end_points_boundary:
  assumes "geometry r = Single (LineString cs)"
  shows "concat (map (get_parts \<circ> boundary) (get_parts (geometry r))) = end_points (geometry r)"
  using assms by simp

text \<open>
  Claim C6, as amended. The decomposition is not idempotent. Applied to a table whose
  geometries are all single LineStrings it returns, row by row of the input, the two
  end points of every open line as two Point features with the properties of that
  line, and nothing for a closed or empty line; the rows are numbered 0, 1, 2, ...
  without gaps. So every feature of the output is a Point, the output has twice as
  many features as the input has open lines, and it differs from every input that is
  not empty.
\<close>

theorem decompose_of_linestrings:
  assumes ls: "\<forall>r \<in> set gdf. \<exists>cs. geometry r = Single (LineString cs)"
  shows "features_of (decompose gdf)
           = concat (map (\<lambda>r. map (Pair (properties r)) (end_points (geometry r))) gdf) \<and>
         map index (decompose gdf) = map (\<lambda>j. [j]) [0..<length (decompose gdf)] \<and>
         (\<forall>r \<in> set (decompose gdf). is_point (geometry r)) \<and>
         length (decompose gdf) = 2 * length (filter (open_line \<circ> geometry) gdf) \<and>
         (gdf \<noteq> [] \<longrightarrow> to_file (decompose gdf) \<noteq> features_of gdf)"
proof -
  have "map (\<lambda>(p, g). map (Pair p) (concat (map (get_parts \<circ> boundary) (get_parts g))))
            (features_of gdf)
          = map (\<lambda>r. map (Pair (properties r)) (end_points (geometry r))) gdf"
    unfolding features_of_def map_map
  proof (rule map_cong[OF refl])
    fix r assume "r \<in> set gdf"
    then obtain cs where "geometry r = Single (LineString cs)" using ls by blast
    then show "((\<lambda>(p, g). map (Pair p) (concat (map (get_parts \<circ> boundary) (get_parts g))))
                 \<circ> (\<lambda>r. (properties r, geometry r))) r
               = map (Pair (properties r)) (end_points (geometry r))"
      by simp
  qed
  then have f: "features_of (decompose gdf)
           = concat (map (\<lambda>r. map (Pair (properties r)) (end_points (geometry r))) gdf)"
    by (simp only: features_of_decompose)
  have lg: "\<forall>g \<in> set (map geometry gdf). \<exists>cs. g = Single (LineString cs)" using ls by simp
  have gd: "map geometry (decompose gdf)
      = concat (map (get_parts \<circ> boundary) (concat (map get_parts (map geometry gdf))))"
    by (simp only: geometry_decompose map_map)
  have both: "(\<forall>q \<in> set (map geometry (decompose gdf)). is_point q) \<and>
      length (map geometry (decompose gdf)) = 2 * length (filter open_line (map geometry gdf))"
    unfolding gd using lg by (rule boundaries_of_linestrings)
  have pts: "\<forall>q \<in> set (map geometry (decompose gdf)). is_point q"
    using both by (rule conjunct1)
  have len: "length (map geometry (decompose gdf)) = 2 * length (filter open_line (map geometry gdf))"
    using both by (rule conjunct2)
  have p: "\<forall>r \<in> set (decompose gdf). is_point (geometry r)" using pts by simp
  have l: "length (decompose gdf) = 2 * length (filter (open_line \<circ> geometry) gdf)"
    using len by (simp add: filter_map)
  have "to_file (decompose gdf) \<noteq> features_of gdf" if ne: "gdf \<noteq> []"
  proof
    assume eq: "to_file (decompose gdf) = features_of gdf"
    then have "length (decompose gdf) = length gdf"
      by (metis length_map to_file_def features_of_def)
    then obtain d ds where d: "decompose gdf = d # ds" using ne by (cases "decompose gdf") auto
    obtain r rs where r: "gdf = r # rs" using ne by (cases gdf) auto
    have "to_file (d # ds) = features_of gdf" using eq by (simp only: d)
    then have "to_file (d # ds) = features_of (r # rs)" by (simp only: r)
    then have "Single (geometry d) = geometry r"
      by (simp add: to_file_def features_of_def)
    moreover have "is_point (geometry d)" using p d by simp
    moreover obtain cs where "geometry r = Single (LineString cs)" using ls r by auto
    ultimately show False by auto
  qed
  then show ?thesis using f p l index_decompose[of gdf] by blast
qed

text \<open>
  A closed ring and an open path: the ring vanishes, the path leaves its two ends, with
  its name, numbered 0 and 1.
\<close>

theorem decompose_of_linestrings_witness:
  "map geometry lines_frame
     = [Single (LineString unit_square), Single (LineString [(0, 0), (2, 1), (4, 0)])] \<and>
   features_of (decompose lines_frame)
     = [([(''name'', ''path'')], Point (0, 0)), ([(''name'', ''path'')], Point (4, 0))] \<and>
   decompose lines_frame
     = [\<lparr>index = [0], properties = [(''name'', ''path'')], geometry = Point (0, 0)\<rparr>,
        \<lparr>index = [1], properties = [(''name'', ''path'')], geometry = Point (4, 0)\<rparr>]"
proof -
  have h: "\<forall>r \<in> set lines_frame. \<exists>cs. geometry r = Single (LineString cs)"
    by (simp add: lines_frame_def)
  have "features_of (decompose lines_frame)
           = concat (map (\<lambda>r. map (Pair (properties r)) (end_points (geometry r))) lines_frame)"
    using decompose_of_linestrings[OF h] by (rule conjunct1)
  then have f: "features_of (decompose lines_frame)
     = [([(''name'', ''path'')], Point (0, 0)), ([(''name'', ''path'')], Point (4, 0))]"
    by (simp add: lines_frame_def unit_square_def)
  have g: "decompose lines_frame
     = [\<lparr>index = [0], properties = [(''name'', ''path'')], geometry = Point (0, 0)\<rparr>,
        \<lparr>index = [1], properties = [(''name'', ''path'')], geometry = Point (4, 0)\<rparr>]"
    by (subst decompose_rows) (simp add: f enumerate_eq_zip)
  have h': "map geometry lines_frame
     = [Single (LineString unit_square), Single (LineString [(0, 0), (2, 1), (4, 0)])]"
    by (simp add: lines_frame_def)
  show ?thesis by (rule conjI[OF h' conjI[OF f g]])
qed

text \<open>
  Claim C6 as stated fails: decomposing the all-LineString collection
  \<open>lines_geojson\<close> does not give that collection back.
\<close>

theorem decompose_not_idempotent:
  "map_sum id (to_file \<circ> decompose) (read_file geo_store ''lines.geojson'') \<noteq> Inr lines_geojson"
  by (simp add: read_file_def geo_store_def lines_geojson_def unit_square_def decompose_def
      explode_def explode_row_def reset_index_def set_boundary_def to_file_def Let_def)

lemma parts_of_boundary_types:
  assumes "q \<in> set (get_parts (boundary s))"
  shows "is_linestring q \<or> is_point q"
proof (cases s)
  case (Point p)
  then show ?thesis using assms by simp
next
  case (LineString cs)
  then show ?thesis using assms by (auto split: if_splits)
next
  case (Polygon rings)
  then show ?thesis using assms by (auto simp: parts_boundary_polygon)
qed

text \<open>
  Claim C5, as amended. \<open>clean_world_geojson\<close> asserts nothing about the geometry types
  of the decomposed collection and has no error for them. Whenever the source can be
  read and the output file can be written, it writes and returns the decomposed
  collection, whatever geometry types it holds: the parts of the boundaries of the parts
  of the input geometries, each with the properties of its feature. Every one of them
  is a single LineString or a single Point, so none is a Polygon, a MultiPolygon or a
  MultiLineString, and Points are written like LineStrings.
\<close>

theorem decomposer_writes_without_type_check:
  assumes src: "st source_url = Some (GeoJSON fc)"
    and w: "writable st output_path"
  shows "\<exists>out. clean_world_geojson source_url output_path st
                 = Inr (st(output_path \<mapsto> GeoJSON (to_file out)), out) \<and>
           features_of out
             = concat (map (\<lambda>(p, g). map (Pair p)
                              (concat (map (get_parts \<circ> boundary) (get_parts g)))) fc) \<and>
           (\<forall>r \<in> set out. is_linestring (geometry r) \<or> is_point (geometry r))"
proof -
  from read_file_features[of st source_url fc] src obtain gdf where
    rd: "read_file st source_url = Inr gdf" and fs: "features_of gdf = fc" by blast
  have run: "clean_world_geojson source_url output_path st
               = Inr (st(output_path \<mapsto> GeoJSON (to_file (decompose gdf))), decompose gdf)"
    using rd w by (simp add: clean_world_geojson_def Let_def)
  have f: "features_of (decompose gdf)
             = concat (map (\<lambda>(p, g). map (Pair p)
                              (concat (map (get_parts \<circ> boundary) (get_parts g)))) fc)"
    by (simp only: features_of_decompose fs)
  have "\<forall>q \<in> set (map geometry (decompose gdf)). is_linestring q \<or> is_point q"
    unfolding geometry_decompose using parts_of_boundary_types by auto
  then have t: "\<forall>r \<in> set (decompose gdf). is_linestring (geometry r) \<or> is_point (geometry r)"
    by simp
  show ?thesis by (intro exI[of _ "decompose gdf"] conjI run f t)
qed

text \<open>On the collection of two line strings the function returns two Point features.\<close>

theorem decomposer_writes_without_type_check_witness:
  "geo_store ''lines.geojson'' = Some (GeoJSON lines_geojson) \<and>
   writable geo_store ''boundaries.json'' \<and>
   (\<exists>out. clean_world_geojson ''lines.geojson'' ''boundaries.json'' geo_store
             = Inr (geo_store(''boundaries.json'' \<mapsto> GeoJSON (to_file out)), out) \<and>
          features_of out
             = [([(''name'', ''path'')], Point (0, 0)), ([(''name'', ''path'')], Point (4, 0))])"
proof -
  have h: "geo_store ''lines.geojson'' = Some (GeoJSON lines_geojson)"
    by (simp add: geo_store_def)
  have w: "writable geo_store ''boundaries.json''"
    by (simp add: geo_store_def writable_def is_dir_def parent_def)
  from decomposer_writes_without_type_check[of geo_store "''lines.geojson''" lines_geojson
      "''boundaries.json''"] h w
  obtain out where
    r: "clean_world_geojson ''lines.geojson'' ''boundaries.json'' geo_store
          = Inr (geo_store(''boundaries.json'' \<mapsto> GeoJSON (to_file out)), out)"
    and g: "features_of out
          = concat (map (\<lambda>(p, g). map (Pair p)
                           (concat (map (get_parts \<circ> boundary) (get_parts g)))) lines_geojson)"
    by blast
  have g': "features_of out
             = [([(''name'', ''path'')], Point (0, 0)), ([(''name'', ''path'')], Point (4, 0))]"
    unfolding g by (simp add: lines_geojson_def unit_square_def)
  have e: "\<exists>out. clean_world_geojson ''lines.geojson'' ''boundaries.json'' geo_store
             = Inr (geo_store(''boundaries.json'' \<mapsto> GeoJSON (to_file out)), out) \<and>
          features_of out
             = [([(''name'', ''path'')], Point (0, 0)), ([(''name'', ''path'')], Point (4, 0))]"
    by (rule exI[of _ out]) (simp only: r g' simp_thms)
  show ?thesis by (rule conjI[OF h conjI[OF w e]])
qed

text \<open>
  Claim C5 as stated fails: the result below holds Point geometries, and the call
  returns it instead of raising.
\<close>

theorem decomposer_lets_points_through:
  "map_sum id (map geometry \<circ> snd)
     (clean_world_geojson ''lines.geojson'' ''boundaries.json'' geo_store)
   = Inr [Point (0, 0), Point (4, 0)]"
  by (simp add: clean_world_geojson_def read_file_def geo_store_def lines_geojson_def
      unit_square_def decompose_def explode_def explode_row_def reset_index_def
      set_boundary_def Let_def writable_def is_dir_def parent_def)

section \<open>The geoid synthesizer\<close>

lemma longitude_reorder:
  "longitude (reorder_longitude array) = sort (new_lon_values (longitude array))"
  by (simp add: reorder_longitude_def sortby_longitude_def)

text \<open>
  The native axis of every run holds the longitudes 0, 180 and 360. The longitude 180 is
  not remapped, so the reordered axis is not inside [-180, 180); the longitude 360 is
  remapped onto 0, which is there already, so the reordered axis is not strictly
  increasing.
\<close>

lemma reorder_longitude_keeps_180:
  assumes "180 \<in> set (longitude array)"
  shows "\<not> list_all (\<lambda>lon. -180 \<le> lon \<and> lon < 180) (longitude (reorder_longitude array))"
proof -
  have "(if (180::real) > 180 then 180 - 360 else 180) \<in> set (new_lon_values (longitude array))"
    unfolding new_lon_values_def set_map using assms by (rule imageI)
  then have "180 \<in> set (longitude (reorder_longitude array))"
    by (simp add: longitude_reorder)
  then show ?thesis by (auto simp: list_all_iff)
qed

lemma reorder_longitude_duplicates_0:
  assumes "0 \<in> set (longitude array)" and "360 \<in> set (longitude array)"
  shows "\<not> sorted_wrt (<) (longitude (reorder_longitude array))"
proof -
  let ?f = "\<lambda>lon::real. if lon > 180 then lon - 360 else lon"
  have e: "?f 0 = ?f 360" by simp
  have "\<not> inj_on ?f (set (longitude array))"
  proof
    assume "inj_on ?f (set (longitude array))"
    from inj_onD[OF this e assms] show False by simp
  qed
  then have "\<not> distinct (new_lon_values (longitude array))"
    by (simp add: new_lon_values_def distinct_map)
  then have "\<not> distinct (sort (new_lon_values (longitude array)))" by simp
  then show ?thesis by (simp add: longitude_reorder strict_sorted_iff)
qed

text \<open>The native grid of degree 1, reordered, and the raster written from it.\<close>

lemma reordered_native_grid:
  "reorder_longitude native_grid =
     \<lparr>latitude = [90, 45, 0, -45, -90],
      longitude = [-135, -90, -45, 0, 0, 45, 90, 135, 180],
      grid = [[Num 5, Num 6, Num 7, Num 0, Num 0, Num 1, Num 2, Num 3, Num 4],
              [Num 15, Num 16, Num 17, Num 10, Num 10, Num 11, Num 12, Num 13, Num 14],
              [Num 25, Num 26, Num 27, Num 20, Num 20, Num 21, Num 22, Num 23, Num 24],
              [Num 35, Num 36, Num 37, Num 30, Num 30, Num 31, Num 32, Num 33, Num 34],
              [Num 45, Num 46, Num 47, Num 40, Num 40, Num 41, Num 42, Num 43, Num 44]]\<rparr>"
  by (simp add: reorder_longitude_def sortby_longitude_def new_lon_values_def native_grid_def
      sort_key_def)

lemma written_native_grid:
  "to_raster (reorder_longitude native_grid) =
     \<lparr>band0 = [[Num 5, Num 6, Num 7, Num 0, Num 0, Num 1, Num 2, Num 3, Num 4],
              [Num 15, Num 16, Num 17, Num 10, Num 10, Num 11, Num 12, Num 13, Num 14],
              [Num 25, Num 26, Num 27, Num 20, Num 20, Num 21, Num 22, Num 23, Num 24],
              [Num 35, Num 36, Num 37, Num 30, Num 30, Num 31, Num 32, Num 33, Num 34],
              [Num 45, Num 46, Num 47, Num 40, Num 40, Num 41, Num 42, Num 43, Num 44]],
      y_values = [90, 45, 0, -45, -90],
      x_values = [-135, -765 / 8, -225 / 4, -135 / 8, 45 / 2, 495 / 8, 405 / 4, 1125 / 8,
                  180]\<rparr>"
proof -
  have "[0..<9] = [0, 1, 2, 3, 4, 5, 6, 7, 8]" "[0..<5] = [0, 1, 2, 3, 4]"
    by (simp_all add: upt_rec)
  then show ?thesis
    by (simp add: to_raster_def evenly_spaced_def reordered_native_grid)
qed

text \<open>
  Claim C2 fails on the code. On the native grid of degree 1 the reordered axis holds 0
  twice and ends at 180: it is neither strictly increasing nor inside [-180, 180). The
  raster that \<open>generate_geoid\<close> writes has its x axis respaced evenly between the first
  and the last of these longitudes: it is increasing, but it still ends at 180, and
  its columns no longer lie at the longitudes of the grid.
\<close>

theorem generate_geoid_longitude_axis:
  "reorder_longitude native_grid =
     \<lparr>latitude = [90, 45, 0, -45, -90],
      longitude = [-135, -90, -45, 0, 0, 45, 90, 135, 180],
      grid = [[Num 5, Num 6, Num 7, Num 0, Num 0, Num 1, Num 2, Num 3, Num 4],
              [Num 15, Num 16, Num 17, Num 10, Num 10, Num 11, Num 12, Num 13, Num 14],
              [Num 25, Num 26, Num 27, Num 20, Num 20, Num 21, Num 22, Num 23, Num 24],
              [Num 35, Num 36, Num 37, Num 30, Num 30, Num 31, Num 32, Num 33, Num 34],
              [Num 45, Num 46, Num 47, Num 40, Num 40, Num 41, Num 42, Num 43, Num 44]]\<rparr> \<and>
   \<not> sorted_wrt (<) (longitude (reorder_longitude native_grid)) \<and>
   \<not> list_all (\<lambda>lon. -180 \<le> lon \<and> lon < 180) (longitude (reorder_longitude native_grid)) \<and>
   map_sum id (\<lambda>st. st ''geoid.tif'') (generate_geoid example_egm 1 ''geoid.tif'' Map.empty) =
     Inr (Some (GeoTIFF
     \<lparr>band0 = [[Num 5, Num 6, Num 7, Num 0, Num 0, Num 1, Num 2, Num 3, Num 4],
              [Num 15, Num 16, Num 17, Num 10, Num 10, Num 11, Num 12, Num 13, Num 14],
              [Num 25, Num 26, Num 27, Num 20, Num 20, Num 21, Num 22, Num 23, Num 24],
              [Num 35, Num 36, Num 37, Num 30, Num 30, Num 31, Num 32, Num 33, Num 34],
              [Num 45, Num 46, Num 47, Num 40, Num 40, Num 41, Num 42, Num 43, Num 44]],
      y_values = [90, 45, 0, -45, -90],
      x_values = [-135, -765 / 8, -225 / 4, -135 / 8, 45 / 2, 495 / 8, 405 / 4, 1125 / 8,
                  180]\<rparr>)) \<and>
   \<not> list_all (\<lambda>lon. -180 \<le> lon \<and> lon < 180)
       (x_values (to_raster (reorder_longitude native_grid)))"
proof -
  have s: "\<not> sorted_wrt (<) (longitude (reorder_longitude native_grid))"
    by (rule reorder_longitude_duplicates_0) (simp_all add: native_grid_def)
  have k: "\<not> list_all (\<lambda>lon. -180 \<le> lon \<and> lon < 180) (longitude (reorder_longitude native_grid))"
    by (rule reorder_longitude_keeps_180) (simp add: native_grid_def)
  have g: "map_sum id (\<lambda>st. st ''geoid.tif'')
        (generate_geoid example_egm 1 ''geoid.tif'' Map.empty) =
     Inr (Some (GeoTIFF
     \<lparr>band0 = [[Num 5, Num 6, Num 7, Num 0, Num 0, Num 1, Num 2, Num 3, Num 4],
              [Num 15, Num 16, Num 17, Num 10, Num 10, Num 11, Num 12, Num 13, Num 14],
              [Num 25, Num 26, Num 27, Num 20, Num 20, Num 21, Num 22, Num 23, Num 24],
              [Num 35, Num 36, Num 37, Num 30, Num 30, Num 31, Num 32, Num 33, Num 34],
              [Num 45, Num 46, Num 47, Num 40, Num 40, Num 41, Num 42, Num 43, Num 44]],
      y_values = [90, 45, 0, -45, -90],
      x_values = [-135, -765 / 8, -225 / 4, -135 / 8, 45 / 2, 495 / 8, 405 / 4, 1125 / 8,
                  180]\<rparr>))"
    by (simp add: generate_geoid_def example_egm_def save_geoid_as_geotiff_def mkdir_parents_def
        is_dir_def parent_def written_native_grid)
  have x: "\<not> list_all (\<lambda>lon. -180 \<le> lon \<and> lon < 180)
       (x_values (to_raster (reorder_longitude native_grid)))"
    by (simp add: written_native_grid)
  show ?thesis by (rule conjI[OF reordered_native_grid conjI[OF s conjI[OF k conjI[OF g x]]]])
qed

section \<open>Configuration and orchestration\<close>

lemma slice_step_neg: "0 < s \<Longrightarrow> slice_step (- int s) = take_every s \<circ> rev"
  by (auto simp: fun_eq_iff slice_step_def)

text \<open>
  With a negative step \<open>-s\<close> the function returns as well: rows, columns and axes are
  walked from the last to the first.
\<close>

lemma geotiff_to_json_returns_reversed:
  assumes s: "1 \<le> s"
    and f: "st input_path = Some (GeoTIFF rast)"
    and wf: "wf_raster rast"
    and ne: "band0 rast \<noteq> []" "x_values rast \<noteq> []"
    and w: "writable st output_path"
  shows "\<exists>out. geotiff_to_json input_path output_path (- int s) st
                 = Inr (st(output_path \<mapsto> JSON out), out) \<and>
           heights out = map (take_every s \<circ> rev) (take_every s (rev (band0 rast))) \<and>
           lats out = take_every s (rev (y_values rast)) \<and>
           lons out = take_every s (rev (x_values rast))"
proof -
  define data where "data = map (take_every s \<circ> rev) (take_every s (rev (band0 rast)))"
  obtain r rs where rs: "rev (band0 rast) = r # rs"
    using ne(1) by (cases "rev (band0 rast)") auto
  have "r \<in> set (band0 rast)" using rs by (metis list.set_intros(1) set_rev)
  then have "length r = length (x_values rast)"
    using wf by (simp add: wf_raster_def rectangular_def list_all_iff)
  then have "rev r \<noteq> []" using ne(2) by auto
  then have "take_every s (rev r) \<noteq> []" by (simp add: take_every_Nil_iff)
  then have cne: "concat data \<noteq> []" by (simp add: data_def rs)
  have "\<exists>mn. nanmin data = Inr mn"
    using cne by (cases "non_nan (concat data)") (simp_all add: nanmin_def del: concat_eq_Nil_conv)
  then obtain mn where mn: "nanmin data = Inr mn" ..
  have "\<exists>mx. nanmax data = Inr mx"
    using cne by (cases "non_nan (concat data)") (simp_all add: nanmax_def del: concat_eq_Nil_conv)
  then obtain mx where mx: "nanmax data = Inr mx" ..
  have yne: "take_every s (rev (y_values rast)) \<noteq> []"
    using wf ne(1) by (auto simp: take_every_Nil_iff wf_raster_def)
  have xne: "take_every s (rev (x_values rast)) \<noteq> []"
    using ne(2) by (simp add: take_every_Nil_iff)
  have wd: "is_dir st (parent output_path)" "st output_path \<noteq> Some Directory"
    using w by (simp_all add: writable_def)
  have nz: "- int s \<noteq> 0" using s by simp
  let ?out = "\<lparr>heights = data, lats = take_every s (rev (y_values rast)),
               lons = take_every s (rev (x_values rast)),
               minHeight = mn, maxHeight = mx, shape = shape_of data\<rparr>"
  have "geotiff_to_json input_path output_path (- int s) st
          = Inr (st(output_path \<mapsto> JSON ?out), ?out)"
    using s f mn mx yne xne wd nz
    by (simp add: geotiff_to_json_def open_rasterio_def py_slice2_def py_slice_def
        slice_step_neg Let_def data_def[symmetric])
  then show ?thesis by (intro exI[of _ ?out]) (simp add: data_def)
qed

text \<open>
  Claim C7, as amended. The bound on the stride is a constraint of the configuration,
  not a check of the sampler. Constructing a \<open>PipelineConfig\<close> with \<open>downsample < 1\<close>
  raises a \<open>ValidationError\<close> that names the field, and a configuration that the
  constructor returns has the stride it was given, at least 1 (and a degree in 1 to
  2160). \<open>geotiff_to_json\<close> itself fails when its input path does not resolve to a
  raster and, by the slice, with \<open>ValueError\<close> when the stride is 0; it accepts every
  negative stride \<open>-s\<close>: on a raster of \<open>rows\<close> by \<open>cols\<close> cells, with an output path
  that can be written, it returns the grid whose cell \<open>(i, j)\<close> is the cell
  \<open>(rows - 1 - i * s, cols - 1 - j * s)\<close> of the raster, every \<open>s\<close>-th row and column
  from the last backwards, with the axes reversed and decimated in the same way.
\<close>

theorem stride_is_validated_by_the_configuration:
  "(d < 1 \<longrightarrow>
      (\<exists>fields. PipelineConfig l d tif js url wb = Inl (ValidationError fields) \<and>
                ''downsample'' \<in> set fields)) \<and>
   (\<forall>config. PipelineConfig l d tif js url wb = Inr config \<longrightarrow>
      downsample config = d \<and> 1 \<le> d \<and> lmax config = l \<and> 1 \<le> l \<and> l \<le> 2160) \<and>
   ((\<forall>r. st input_path \<noteq> Some (GeoTIFF r)) \<longrightarrow>
      geotiff_to_json input_path output_path d st = Inl RasterioIOError) \<and>
   (\<forall>r. st input_path = Some (GeoTIFF r) \<longrightarrow>
      geotiff_to_json input_path output_path 0 st = Inl ValueError) \<and>
   (\<forall>s rast. 1 \<le> s \<and> st input_path = Some (GeoTIFF rast) \<and> wf_raster rast \<and>
        band0 rast \<noteq> [] \<and> x_values rast \<noteq> [] \<and> writable st output_path \<longrightarrow>
      (\<exists>out. geotiff_to_json input_path output_path (- int s) st
                = Inr (st(output_path \<mapsto> JSON out), out) \<and>
             lats out = take_every s (rev (y_values rast)) \<and>
             lons out = take_every s (rev (x_values rast)) \<and>
             length (heights out) = nat \<lceil>real (length (band0 rast)) / real s\<rceil> \<and>
             (\<forall>i < length (heights out).
                length (heights out ! i) = nat \<lceil>real (length (x_values rast)) / real s\<rceil> \<and>
                (\<forall>j < length (heights out ! i).
                   i * s < length (band0 rast) \<and> j * s < length (x_values rast) \<and>
                   heights out ! i ! j
                     = band0 rast ! (length (band0 rast) - 1 - i * s)
                                  ! (length (x_values rast) - 1 - j * s)))))"
proof -
  have a: "d < 1 \<longrightarrow>
      (\<exists>fields. PipelineConfig l d tif js url wb = Inl (ValidationError fields) \<and>
                ''downsample'' \<in> set fields)"
    by (simp add: PipelineConfig_def Let_def)
  have b: "\<forall>config. PipelineConfig l d tif js url wb = Inr config \<longrightarrow>
      downsample config = d \<and> 1 \<le> d \<and> lmax config = l \<and> 1 \<le> l \<and> l \<le> 2160"
    by (auto simp: PipelineConfig_def Let_def split: if_splits)
  have c: "(\<forall>r. st input_path \<noteq> Some (GeoTIFF r)) \<longrightarrow>
      geotiff_to_json input_path output_path d st = Inl RasterioIOError"
  proof
    assume "\<forall>r. st input_path \<noteq> Some (GeoTIFF r)"
    then have "open_rasterio st input_path = Inl RasterioIOError"
      by (auto simp: open_rasterio_def split: option.splits artifact.splits)
    then show "geotiff_to_json input_path output_path d st = Inl RasterioIOError"
      by (simp add: geotiff_to_json_def)
  qed
  have e: "\<forall>r. st input_path = Some (GeoTIFF r) \<longrightarrow>
      geotiff_to_json input_path output_path 0 st = Inl ValueError"
    by (simp add: geotiff_to_json_def open_rasterio_def py_slice2_def)
  have n: "\<forall>s rast. 1 \<le> s \<and> st input_path = Some (GeoTIFF rast) \<and> wf_raster rast \<and>
        band0 rast \<noteq> [] \<and> x_values rast \<noteq> [] \<and> writable st output_path \<longrightarrow>
      (\<exists>out. geotiff_to_json input_path output_path (- int s) st
                = Inr (st(output_path \<mapsto> JSON out), out) \<and>
             lats out = take_every s (rev (y_values rast)) \<and>
             lons out = take_every s (rev (x_values rast)) \<and>
             length (heights out) = nat \<lceil>real (length (band0 rast)) / real s\<rceil> \<and>
             (\<forall>i < length (heights out).
                length (heights out ! i) = nat \<lceil>real (length (x_values rast)) / real s\<rceil> \<and>
                (\<forall>j < length (heights out ! i).
                   i * s < length (band0 rast) \<and> j * s < length (x_values rast) \<and>
                   heights out ! i ! j
                     = band0 rast ! (length (band0 rast) - 1 - i * s)
                                  ! (length (x_values rast) - 1 - j * s))))"
  proof (intro allI impI)
    fix s :: nat and rast :: raster
    assume h: "1 \<le> s \<and> st input_path = Some (GeoTIFF rast) \<and> wf_raster rast \<and>
        band0 rast \<noteq> [] \<and> x_values rast \<noteq> [] \<and> writable st output_path"
    then have pos: "0 < s" and wf: "wf_raster rast" by simp_all
    let ?rows = "length (band0 rast)" and ?cols = "length (x_values rast)"
    from geotiff_to_json_returns_reversed[of s st input_path rast output_path] h
    obtain out where run: "geotiff_to_json input_path output_path (- int s) st
                 = Inr (st(output_path \<mapsto> JSON out), out)"
      and hs: "heights out = map (take_every s \<circ> rev) (take_every s (rev (band0 rast)))"
      and la: "lats out = take_every s (rev (y_values rast))"
      and lo: "lons out = take_every s (rev (x_values rast))"
      by blast
    have all_rows: "\<forall>r \<in> set (band0 rast). length r = ?cols"
      using wf unfolding wf_raster_def rectangular_def list_all_iff by (rule conjunct2)
    have len: "length (heights out) = nat \<lceil>real ?rows / real s\<rceil>"
      by (simp add: hs length_take_every pos ceil_div_nat[OF pos, symmetric])
    have cells: "length (heights out ! i) = nat \<lceil>real ?cols / real s\<rceil> \<and>
                (\<forall>j < length (heights out ! i).
                   i * s < ?rows \<and> j * s < ?cols \<and>
                   heights out ! i ! j = band0 rast ! (?rows - 1 - i * s) ! (?cols - 1 - j * s))"
      if i: "i < length (heights out)" for i
    proof -
      define k where "k = ?rows - 1 - i * s"
      have i': "i < length (take_every s (rev (band0 rast)))" using i by (simp add: hs)
      then have "i < (length (rev (band0 rast)) + s - 1) div s"
        by (simp add: length_take_every pos)
      then have ir: "i * s < ?rows" using index_in_range[OF pos] by fastforce
      have "take_every s (rev (band0 rast)) ! i = rev (band0 rast) ! (i * s)"
        using nth_take_every[OF pos i'] .
      also have "\<dots> = band0 rast ! k"
        using ir by (simp add: rev_nth k_def)
      finally have row: "heights out ! i = take_every s (rev (band0 rast ! k))"
        using i' by (simp add: hs)
      have "k < ?rows" using ir by (simp add: k_def)
      then have "band0 rast ! k \<in> set (band0 rast)" by simp
      then have rl: "length (band0 rast ! k) = ?cols" using all_rows by blast
      have "length (heights out ! i) = (?cols + s - 1) div s"
        by (simp only: row length_take_every[OF pos] length_rev rl)
      then have l: "length (heights out ! i) = nat \<lceil>real ?cols / real s\<rceil>"
        by (simp only: ceil_div_nat[OF pos])
      have c: "i * s < ?rows \<and> j * s < ?cols \<and>
                   heights out ! i ! j = band0 rast ! (?rows - 1 - i * s) ! (?cols - 1 - j * s)"
        if j: "j < length (heights out ! i)" for j
      proof -
        have j': "j < length (take_every s (rev (band0 rast ! k)))"
          using j by (simp add: row)
        then have "j < (length (rev (band0 rast ! k)) + s - 1) div s"
          by (simp only: length_take_every[OF pos])
        then have "j < (?cols + s - 1) div s" by (simp only: length_rev rl)
        then have jr: "j * s < ?cols" by (rule index_in_range[OF pos])
        have "heights out ! i ! j = rev (band0 rast ! k) ! (j * s)"
          using nth_take_every[OF pos j'] by (simp only: row)
        also have "\<dots> = band0 rast ! k ! (?cols - 1 - j * s)"
          using jr rl by (simp add: rev_nth)
        finally show ?thesis using ir jr by (simp add: k_def)
      qed
      show ?thesis using l c by blast
    qed
    show "\<exists>out. geotiff_to_json input_path output_path (- int s) st
                = Inr (st(output_path \<mapsto> JSON out), out) \<and>
             lats out = take_every s (rev (y_values rast)) \<and>
             lons out = take_every s (rev (x_values rast)) \<and>
             length (heights out) = nat \<lceil>real ?rows / real s\<rceil> \<and>
             (\<forall>i < length (heights out).
                length (heights out ! i) = nat \<lceil>real ?cols / real s\<rceil> \<and>
                (\<forall>j < length (heights out ! i).
                   i * s < ?rows \<and> j * s < ?cols \<and>
                   heights out ! i ! j
                     = band0 rast ! (?rows - 1 - i * s) ! (?cols - 1 - j * s)))"
      using run la lo len cells by (intro exI[of _ out]) simp
  qed
  show ?thesis by (rule conjI[OF a conjI[OF b conjI[OF c conjI[OF e n]]]])
qed

text \<open>
  A configuration with stride 0 is rejected; the sampler on a missing file fails; on
  the 4 by 4 raster with stride -2 it returns the rows and columns 3 and 1, in that
  order.
\<close>

theorem stride_is_validated_by_the_configuration_witness:
  "(0::int) < 1 \<and>
   PipelineConfig 800 0 ''geoid.tif'' ''geoid.json'' ''world.geojson'' ''boundaries.json''
     = Inl (ValidationError [''downsample'']) \<and>
   (\<forall>r. raster_store ''missing.tif'' \<noteq> Some (GeoTIFF r)) \<and>
   geotiff_to_json ''missing.tif'' ''a.json'' 0 raster_store = Inl RasterioIOError \<and>
   raster_store ''a.tif'' = Some (GeoTIFF raster4x4) \<and>
   geotiff_to_json ''a.tif'' ''a.json'' 0 raster_store = Inl ValueError \<and>
   wf_raster raster4x4 \<and> writable raster_store ''a.json'' \<and>
   (\<exists>out. geotiff_to_json ''a.tif'' ''a.json'' (- int 2) raster_store
            = Inr (raster_store(''a.json'' \<mapsto> JSON out), out) \<and>
          heights out = [[Num 33, Num 31], [Num 13, Num 11]] \<and>
          lats out = [-90, 30] \<and> lons out = [90, -90])"
proof -
  have h1: "(0::int) < 1" by simp
  have h2: "\<forall>r. raster_store ''missing.tif'' \<noteq> Some (GeoTIFF r)"
    by (simp add: raster_store_def)
  have h3: "raster_store ''a.tif'' = Some (GeoTIFF raster4x4)"
    by (simp add: raster_store_def)
  have h4: "wf_raster raster4x4" "band0 raster4x4 \<noteq> []" "x_values raster4x4 \<noteq> []"
    by (simp_all add: raster4x4_def wf_raster_def rectangular_def)
  have h5: "writable raster_store ''a.json''"
    by (simp add: raster_store_def writable_def is_dir_def parent_def)
  note t = stride_is_validated_by_the_configuration[of 0 800 "''geoid.tif''" "''geoid.json''"
      "''world.geojson''" "''boundaries.json''" raster_store _ "''a.json''"]
  have c1: "PipelineConfig 800 0 ''geoid.tif'' ''geoid.json'' ''world.geojson'' ''boundaries.json''
     = Inl (ValidationError [''downsample''])"
    by (simp add: PipelineConfig_def)
  have c2: "geotiff_to_json ''missing.tif'' ''a.json'' 0 raster_store = Inl RasterioIOError"
    using t[of "''missing.tif''", THEN conjunct2, THEN conjunct2, THEN conjunct1] h2 by blast
  have c3: "geotiff_to_json ''a.tif'' ''a.json'' 0 raster_store = Inl ValueError"
    using t[of "''a.tif''", THEN conjunct2, THEN conjunct2, THEN conjunct2, THEN conjunct1] h3
    by blast
  have "1 \<le> (2::nat) \<and> raster_store ''a.tif'' = Some (GeoTIFF raster4x4) \<and> wf_raster raster4x4 \<and>
        band0 raster4x4 \<noteq> [] \<and> x_values raster4x4 \<noteq> [] \<and> writable raster_store ''a.json''"
    using h3 h4 h5 by simp
  from t[of "''a.tif''", THEN conjunct2, THEN conjunct2, THEN conjunct2, THEN conjunct2,
      rule_format, OF this]
  obtain out where r: "geotiff_to_json ''a.tif'' ''a.json'' (- int 2) raster_store
            = Inr (raster_store(''a.json'' \<mapsto> JSON out), out)"
    by blast
  have "map_sum id snd (geotiff_to_json ''a.tif'' ''a.json'' (- int 2) raster_store) =
     Inr \<lparr>heights = [[Num 33, Num 31], [Num 13, Num 11]], lats = [-90, 30], lons = [90, -90],
             minHeight = Num 11, maxHeight = Num 33, shape = [2, 2]\<rparr>"
    by (simp add: geotiff_to_json_def open_rasterio_def raster_store_def raster4x4_def
      py_slice2_def py_slice_def slice_step_def nanmin_def nanmax_def shape_of_def Let_def
      is_dir_def parent_def)
  then have v: "heights out = [[Num 33, Num 31], [Num 13, Num 11]]"
    "lats out = [-90, 30]" "lons out = [90, -90]"
    using r by simp_all
  have c4: "\<exists>out. geotiff_to_json ''a.tif'' ''a.json'' (- int 2) raster_store
            = Inr (raster_store(''a.json'' \<mapsto> JSON out), out) \<and>
          heights out = [[Num 33, Num 31], [Num 13, Num 11]] \<and>
          lats out = [-90, 30] \<and> lons out = [90, -90]"
    by (intro exI[of _ out] conjI r v)
  show ?thesis
    by (intro conjI h1 c1 h2 c2 h3 c3 h4(1) h5 c4)
qed

text \<open>
  Claim C7 as stated fails: called with the stride -1, \<open>geotiff_to_json\<close> raises
  nothing and returns the grid with its rows and columns reversed.
\<close>

theorem negative_stride_is_accepted:
  "map_sum id (heights \<circ> snd) (geotiff_to_json ''b.tif'' ''b.json'' (- 1) raster_store)
     = Inr [[Num 7, Num (- 2)], [NaN, Num 5]]"
  by (simp add: geotiff_to_json_def open_rasterio_def raster_store_def raster_nan_def
      py_slice2_def py_slice_def slice_step_def nanmin_def nanmax_def shape_of_def Let_def
      is_dir_def parent_def)



text \<open>
  Neither writer creates a directory: a call that returns has found the directory of
  its output path in place.
\<close>

lemma geotiff_to_json_needs_directory:
  assumes "geotiff_to_json i out d s = Inr (s', g)"
  shows "writable s out"
  using assms
  by (auto simp: geotiff_to_json_def writable_def Let_def split: sum.splits if_splits)

lemma clean_world_geojson_needs_directory:
  assumes "clean_world_geojson url out s = Inr (s', g)"
  shows "writable s out"
  using assms
  by (auto simp: clean_world_geojson_def Let_def split: sum.splits if_splits)




end
